theory Spec2Isabelle
  imports Complex_Main
begin

section \<open>Python values and strings\<close>

text \<open>
  The module \<^verbatim>\<open>confluence_sync/config.py\<close> merges a YAML file with environment
  variables and validates the result.  Its own functions (\<^verbatim>\<open>load\<close>,
  \<^verbatim>\<open>_overlay_env\<close>, \<^verbatim>\<open>_get_env\<close>, \<^verbatim>\<open>_parse_ignore_patterns\<close>,
  \<^verbatim>\<open>save_template\<close>, \<^verbatim>\<open>config\<close>) are translated line by line further down;
  \<^verbatim>\<open>save_interactive_config\<close>, which no property below is about, is left out.
  This section models the Python objects they work on.

  A Python \<^verbatim>\<open>str\<close> is modelled by the bytes of its UTF-8 encoding (a HOL \<open>string\<close>).
  An environment variable is a byte string of the operating system; a byte sequence
  that is not UTF-8 reaches Python as lone surrogates, which are no whitespace, and
  stays here as the bytes it was.
\<close>

subsection \<open>Whitespace and \<^verbatim>\<open>str.strip\<close>\<close>

text \<open>
  \<^verbatim>\<open>str.strip()\<close> removes the characters for which \<^verbatim>\<open>str.isspace\<close> holds: the code points
  U+0009 to U+000D, U+001C to U+001F, U+0020, U+0085, U+00A0, U+1680, U+2000 to U+200A,
  U+2028, U+2029, U+202F, U+205F and U+3000.  The list below holds their UTF-8 encodings,
  in that order.
\<close>

definition whitespace :: "string list" where
  "whitespace =
     [[CHR 0x09], [CHR 0x0A], [CHR 0x0B], [CHR 0x0C], [CHR 0x0D],
      [CHR 0x1C], [CHR 0x1D], [CHR 0x1E], [CHR 0x1F], [CHR 0x20],
      [CHR 0xC2, CHR 0x85], [CHR 0xC2, CHR 0xA0], [CHR 0xE1, CHR 0x9A, CHR 0x80],
      [CHR 0xE2, CHR 0x80, CHR 0x80], [CHR 0xE2, CHR 0x80, CHR 0x81],
      [CHR 0xE2, CHR 0x80, CHR 0x82], [CHR 0xE2, CHR 0x80, CHR 0x83],
      [CHR 0xE2, CHR 0x80, CHR 0x84], [CHR 0xE2, CHR 0x80, CHR 0x85],
      [CHR 0xE2, CHR 0x80, CHR 0x86], [CHR 0xE2, CHR 0x80, CHR 0x87],
      [CHR 0xE2, CHR 0x80, CHR 0x88], [CHR 0xE2, CHR 0x80, CHR 0x89],
      [CHR 0xE2, CHR 0x80, CHR 0x8A], [CHR 0xE2, CHR 0x80, CHR 0xA8],
      [CHR 0xE2, CHR 0x80, CHR 0xA9], [CHR 0xE2, CHR 0x80, CHR 0xAF],
      [CHR 0xE2, CHR 0x81, CHR 0x9F], [CHR 0xE3, CHR 0x80, CHR 0x80]]"

definition startswith :: "string \<Rightarrow> string \<Rightarrow> bool" where
  "startswith s p = (take (length p) s = p)"

lemma find_SomeD: "find P xs = Some x \<Longrightarrow> P x \<and> x \<in> set xs"
  by (induction xs) (simp_all split: if_splits)

text \<open>Removing, as long as there is one, a leading occurrence of one of the sequences \<open>ws\<close>.\<close>

function lstrip_with :: "string list \<Rightarrow> string \<Rightarrow> string" where
  "lstrip_with ws s =
     (case find (\<lambda>w. w \<noteq> [] \<and> startswith s w) ws of
        None \<Rightarrow> s
      | Some w \<Rightarrow> lstrip_with ws (drop (length w) s))"
  by pat_completeness auto
termination
proof (relation "measure (\<lambda>(ws, s). length s)")
  show "wf (measure (\<lambda>(ws, s). length s))" by simp
next
  fix ws :: "string list" and s w :: string
  assume "find (\<lambda>w. w \<noteq> [] \<and> startswith s w) ws = Some w"
  then have w: "w \<noteq> []" "take (length w) s = w"
    using find_SomeD [of "\<lambda>w. w \<noteq> [] \<and> startswith s w" ws w]
    by (simp_all add: startswith_def)
  have "s \<noteq> []" using w by (cases s) simp_all
  with w show "((ws, drop (length w) s), (ws, s)) \<in> measure (\<lambda>(ws, s). length s)"
    by simp
qed

declare lstrip_with.simps [simp del]

definition lstrip :: "string \<Rightarrow> string" where
  "lstrip s = lstrip_with whitespace s"

definition rstrip :: "string \<Rightarrow> string" where
  "rstrip s = rev (lstrip_with (map rev whitespace) (rev s))"

definition strip :: "string \<Rightarrow> string" where
  "strip s = rstrip (lstrip s)"

subsection \<open>\<^verbatim>\<open>str.split(",")\<close>\<close>

text \<open>
  \<^verbatim>\<open>s.split(sep)\<close> with a one-character separator: the pieces between the separators,
  empty pieces included; the empty string gives one empty piece.
\<close>

fun split :: "char \<Rightarrow> string \<Rightarrow> string list" where
  "split sep [] = [[]]"
| "split sep (c # cs) =
     (if c = sep then [] # split sep cs
      else (case split sep cs of
              [] \<Rightarrow> [[c]]
            | p # ps \<Rightarrow> (c # p) # ps))"

subsection \<open>Objects\<close>

text \<open>
  The objects \<^verbatim>\<open>yaml.safe_load\<close> builds: \<^verbatim>\<open>None\<close>, booleans, integers, (finite) floats
  by their value, strings, lists and dicts.  A dict is the list of its items in insertion
  order.  Timestamps, binary scalars, sets and the non-finite floats are not modelled.
\<close>

datatype pyval =
    PNone
  | PBool bool
  | PInt int
  | PFloat rat
  | PStr string
  | PList "pyval list"
  | PDict "(pyval \<times> pyval) list"

type_synonym dict = "(pyval \<times> pyval) list"

text \<open>Truth value testing: \<^verbatim>\<open>bool(v)\<close>, as \<^verbatim>\<open>if v:\<close> and \<^verbatim>\<open>v or w\<close> use it.\<close>

fun truthy :: "pyval \<Rightarrow> bool" where
  "truthy PNone = False"
| "truthy (PBool b) = b"
| "truthy (PInt i) = (i \<noteq> 0)"
| "truthy (PFloat r) = (r \<noteq> 0)"
| "truthy (PStr s) = (s \<noteq> [])"
| "truthy (PList xs) = (xs \<noteq> [])"
| "truthy (PDict d) = (d \<noteq> [])"

definition py_or :: "pyval \<Rightarrow> pyval \<Rightarrow> pyval" where
  "py_or a b = (if truthy a then a else b)"

fun isinstance_dict :: "pyval \<Rightarrow> bool" where
  "isinstance_dict (PDict d) = True"
| "isinstance_dict _ = False"

fun isinstance_str :: "pyval \<Rightarrow> bool" where
  "isinstance_str (PStr s) = True"
| "isinstance_str _ = False"

text \<open>
  Keys of a dict are compared with \<^verbatim>\<open>==\<close>: numbers by value across \<^verbatim>\<open>bool\<close>,
  \<^verbatim>\<open>int\<close> and \<^verbatim>\<open>float\<close> (\<^verbatim>\<open>True == 1 == 1.0\<close>), everything else within its type.
  Lists and dicts are unhashable and cannot be keys.
\<close>

fun number :: "pyval \<Rightarrow> rat option" where
  "number (PBool b) = Some (if b then 1 else 0)"
| "number (PInt i) = Some (of_int i)"
| "number (PFloat r) = Some r"
| "number _ = None"

definition key_eq :: "pyval \<Rightarrow> pyval \<Rightarrow> bool" where
  "key_eq a b =
     (case (number a, number b) of
        (Some x, Some y) \<Rightarrow> x = y
      | (None, None) \<Rightarrow> a = b
      | _ \<Rightarrow> False)"

fun hashable :: "pyval \<Rightarrow> bool" where
  "hashable (PList xs) = False"
| "hashable (PDict d) = False"
| "hashable _ = True"

text \<open>\<^verbatim>\<open>d.get(k)\<close> (\<open>None\<close> for a missing key) and \<^verbatim>\<open>d[k] = v\<close>.\<close>

fun dict_get :: "dict \<Rightarrow> pyval \<Rightarrow> pyval option" where
  "dict_get [] k = None"
| "dict_get ((k', v) # d) k = (if key_eq k' k then Some v else dict_get d k)"

fun dict_set :: "dict \<Rightarrow> pyval \<Rightarrow> pyval \<Rightarrow> dict" where
  "dict_set [] k v = [(k, v)]"
| "dict_set ((k', v') # d) k v =
     (if key_eq k' k then (k', v) # d else (k', v') # dict_set d k v)"

definition get :: "dict \<Rightarrow> string \<Rightarrow> pyval" where
  "get d k = (case dict_get d (PStr k) of None \<Rightarrow> PNone | Some v \<Rightarrow> v)"


subsection \<open>Exceptions\<close>

text \<open>
  A raise is a result \<open>Inl e\<close>.  \<open>ValueError\<close> carries its message.  \<open>JSONDecodeError\<close>
  (raised by \<^verbatim>\<open>json.loads\<close>) and pydantic's \<open>ValidationError\<close> are subclasses of
  \<^verbatim>\<open>ValueError\<close> in Python; they are kept apart here.  A \<open>ValidationError\<close> carries its
  line errors: the location of the offending input and the error type.
\<close>

datatype loc_item = LocKey string | LocIndex nat

type_synonym line_error = "loc_item list \<times> string"

datatype error =
    ValueError string
  | TypeError
  | JSONDecodeError
  | YAMLError
  | ValidationError "line_error list"

subsection \<open>The constructor \<^verbatim>\<open>dict(x)\<close>\<close>

text \<open>The code points of a string: a new one starts at every byte that is no continuation byte.\<close>

definition is_continuation :: "char \<Rightarrow> bool" where
  "is_continuation c = (0x80 \<le> (of_char c :: nat) \<and> (of_char c :: nat) < 0xC0)"

function code_points :: "string \<Rightarrow> string list" where
  "code_points [] = []"
| "code_points (c # cs) =
     (c # takeWhile is_continuation cs) # code_points (dropWhile is_continuation cs)"
  by pat_completeness auto
termination
  by (relation "measure length") (auto simp: length_dropWhile_le less_Suc_eq_le)

text \<open>Iterating an object: \<open>None\<close> where Python raises \<^verbatim>\<open>TypeError\<close> (not iterable).\<close>

fun py_iter :: "pyval \<Rightarrow> pyval list option" where
  "py_iter (PList xs) = Some xs"
| "py_iter (PStr s) = Some (map PStr (code_points s))"
| "py_iter (PDict d) = Some (map fst d)"
| "py_iter _ = None"

function str_nat :: "nat \<Rightarrow> string" where
  "str_nat n =
     (if n < 10 then [''0123456789'' ! n] else str_nat (n div 10) @ [''0123456789'' ! (n mod 10)])"
  by pat_completeness auto
termination
  by (relation "measure id") auto

declare str_nat.simps [simp del]

text \<open>
  \<^verbatim>\<open>dict(x)\<close> copies a dict.  Any other argument is iterated, and each element must itself
  be iterable with exactly two items, a hashable key and a value.
\<close>

definition length_message :: "nat \<Rightarrow> nat \<Rightarrow> string" where
  "length_message i n =
     ''dictionary update sequence element #'' @ str_nat i @ '' has length '' @ str_nat n
       @ ''; 2 is required''"

fun dict_update_seq :: "dict \<Rightarrow> nat \<Rightarrow> pyval list \<Rightarrow> error + dict" where
  "dict_update_seq acc i [] = Inr acc"
| "dict_update_seq acc i (e # es) =
     (case py_iter e of
        None \<Rightarrow> Inl TypeError
      | Some [k, v] \<Rightarrow>
          if hashable k then dict_update_seq (dict_set acc k v) (Suc i) es else Inl TypeError
      | Some items \<Rightarrow> Inl (ValueError (length_message i (length items))))"

definition py_dict :: "pyval \<Rightarrow> error + pyval" where
  "py_dict x =
     (case x of
        PDict d \<Rightarrow> Inr (PDict d)
      | _ \<Rightarrow>
        (case py_iter x of
           None \<Rightarrow> Inl TypeError
         | Some elems \<Rightarrow>
           (case dict_update_seq [] 0 elems of
              Inl e \<Rightarrow> Inl e
            | Inr d \<Rightarrow> Inr (PDict d))))"

text \<open>\<^verbatim>\<open>obj[k] = v\<close>: only a dict takes a string key.\<close>

definition setitem :: "pyval \<Rightarrow> string \<Rightarrow> pyval \<Rightarrow> error + pyval" where
  "setitem obj k v =
     (case obj of
        PDict d \<Rightarrow> Inr (PDict (dict_set d (PStr k) v))
      | _ \<Rightarrow> Inl TypeError)"


section \<open>\<^verbatim>\<open>json.loads\<close>\<close>

text \<open>
  The decoder of Python's standard library, as far as the code can observe it: whether the
  text is JSON, and which value it denotes.  Numbers keep their literal (the code only asks
  whether an element is a string); an object keeps its members as written.  The limits of
  the interpreter (recursion depth, the digits of an integer) are not modelled.
\<close>

datatype json =
    JNull
  | JBool bool
  | JNumber string
  | JString string
  | JArray "json list"
  | JObject "(string \<times> json) list"

subsection \<open>Tokens\<close>

datatype token =
    TLBracket | TRBracket | TLBrace | TRBrace | TComma | TColon
  | TString string | TNumber string | TTrue | TFalse | TNull

text \<open>The UTF-8 encoding of a code point (a lone surrogate is encoded like any other).\<close>

definition utf8_encode :: "nat \<Rightarrow> string" where
  "utf8_encode cp =
     (if cp < 0x80 then [char_of cp]
      else if cp < 0x800 then [char_of (0xC0 + cp div 0x40), char_of (0x80 + cp mod 0x40)]
      else if cp < 0x10000 then
        [char_of (0xE0 + cp div 0x1000), char_of (0x80 + cp div 0x40 mod 0x40),
         char_of (0x80 + cp mod 0x40)]
      else
        [char_of (0xF0 + cp div 0x40000), char_of (0x80 + cp div 0x1000 mod 0x40),
         char_of (0x80 + cp div 0x40 mod 0x40), char_of (0x80 + cp mod 0x40)])"

definition is_digit :: "char \<Rightarrow> bool" where
  "is_digit c = (c \<in> set ''0123456789'')"

definition hex_digit :: "char \<Rightarrow> nat option" where
  "hex_digit c =
     (if c \<in> set ''0123456789'' then Some (of_char c - 48)
      else if c \<in> set ''abcdef'' then Some (of_char c - 87)
      else if c \<in> set ''ABCDEF'' then Some (of_char c - 55)
      else None)"

fun hex4 :: "string \<Rightarrow> nat option" where
  "hex4 (a # b # c # d # rest) =
     (case (hex_digit a, hex_digit b, hex_digit c, hex_digit d) of
        (Some x, Some y, Some z, Some w) \<Rightarrow> Some (((x * 16 + y) * 16 + z) * 16 + w)
      | _ \<Rightarrow> None)"
| "hex4 _ = None"

text \<open>The escapes \<^verbatim>\<open>\" \\ \/ \b \f \n \r \t\<close>.\<close>

definition unescape :: "char \<Rightarrow> char option" where
  "unescape e =
     (if e = CHR 0x22 then Some (CHR 0x22)
      else if e = CHR 0x5C then Some (CHR 0x5C)
      else if e = CHR ''/'' then Some (CHR ''/'')
      else if e = CHR ''b'' then Some (CHR 0x08)
      else if e = CHR ''f'' then Some (CHR 0x0C)
      else if e = CHR ''n'' then Some (CHR 0x0A)
      else if e = CHR ''r'' then Some (CHR 0x0D)
      else if e = CHR ''t'' then Some (CHR 0x09)
      else None)"

definition prepend :: "string \<Rightarrow> (string \<times> string) option \<Rightarrow> (string \<times> string) option" where
  "prepend p r = (case r of None \<Rightarrow> None | Some (s, rest) \<Rightarrow> Some (p @ s, rest))"

text \<open>
  A string literal, read from behind its opening quote: the decoded string and the text
  behind the closing quote.  A control character inside the literal is refused; a high
  surrogate escape followed by a low one is one code point.
\<close>

function scanstring :: "string \<Rightarrow> (string \<times> string) option" where
  "scanstring [] = None"
| "scanstring (c # cs) =
     (if c = CHR 0x22 then Some ([], cs)
      else if c = CHR 0x5C then
        (case cs of
           [] \<Rightarrow> None
         | e # es \<Rightarrow>
             if e = CHR ''u'' then
               (case hex4 es of
                  None \<Rightarrow> None
                | Some hi \<Rightarrow>
                    if 0xD800 \<le> hi \<and> hi \<le> 0xDBFF \<and> startswith (drop 4 es) [CHR 0x5C, CHR ''u''] then
                      (case hex4 (drop 6 es) of
                         None \<Rightarrow> None
                       | Some lo \<Rightarrow>
                           if 0xDC00 \<le> lo \<and> lo \<le> 0xDFFF then
                             prepend (utf8_encode (0x10000 + (hi - 0xD800) * 0x400 + (lo - 0xDC00)))
                               (scanstring (drop 10 es))
                           else prepend (utf8_encode hi) (scanstring (drop 4 es)))
                    else prepend (utf8_encode hi) (scanstring (drop 4 es)))
             else
               (case unescape e of
                  None \<Rightarrow> None
                | Some ch \<Rightarrow> prepend [ch] (scanstring es)))
      else if (of_char c :: nat) < 0x20 then None
      else prepend [c] (scanstring cs))"
  by pat_completeness auto
termination
  by (relation "measure length") auto

declare scanstring.simps [simp del]

text \<open>
  A number literal \<^verbatim>\<open>-?(0|[1-9][0-9]*)(\.[0-9]+)?([eE][-+]?[0-9]+)?\<close> at the start of the
  text: the length of each part, 0 when the part does not match.
\<close>

definition int_len :: "string \<Rightarrow> nat" where
  "int_len s =
     (case s of
        [] \<Rightarrow> 0
      | c # cs \<Rightarrow> if c = CHR ''0'' then 1 else length (takeWhile is_digit s))"

definition frac_len :: "string \<Rightarrow> nat" where
  "frac_len s =
     (case s of
        [] \<Rightarrow> 0
      | c # cs \<Rightarrow>
          if c = CHR ''.'' \<and> takeWhile is_digit cs \<noteq> [] then Suc (length (takeWhile is_digit cs))
          else 0)"

definition exp_len :: "string \<Rightarrow> nat" where
  "exp_len s =
     (case s of
        [] \<Rightarrow> 0
      | c # cs \<Rightarrow>
          if c = CHR ''e'' \<or> c = CHR ''E'' then
            (let k = (if startswith cs ''+'' \<or> startswith cs ''-'' then 1 else 0);
                 n = length (takeWhile is_digit (drop k cs))
             in if n = 0 then 0 else 1 + k + n)
          else 0)"

definition number_len :: "string \<Rightarrow> nat" where
  "number_len s =
     (let m = (if startswith s ''-'' then 1 else 0);
          i = int_len (drop m s)
      in if i = 0 then 0
         else (let f = frac_len (drop (m + i) s);
                   e = exp_len (drop (m + i + f) s)
               in m + i + f + e))"


lemma prepend_SomeD:
  "prepend p r = Some (s, rest) \<Longrightarrow> \<exists>s'. r = Some (s', rest) \<and> s = p @ s'"
  by (cases r) (auto simp: prepend_def)

lemma scanstring_length: "scanstring cs = Some (s, rest) \<Longrightarrow> length rest \<le> length cs"
proof (induction cs arbitrary: s rest rule: length_induct)
  case (1 cs)
  show ?case
  proof (cases cs)
    case Nil
    with "1.prems" show ?thesis by (simp add: scanstring.simps)
  next
    case (Cons c cs')
    have shorter: "\<And>ys s'. scanstring ys = Some (s', rest) \<Longrightarrow> length ys \<le> length cs'
                     \<Longrightarrow> length rest \<le> Suc (length cs')"
    proof -
      fix ys s'
      assume "scanstring ys = Some (s', rest)" and "length ys \<le> length cs'"
      with "1.IH" [rule_format, of ys s' rest] Cons show "length rest \<le> Suc (length cs')"
        by simp
    qed
    from "1.prems" show ?thesis
      unfolding Cons
      by (auto simp: scanstring.simps split: if_splits list.splits option.splits
               dest!: prepend_SomeD shorter)
  qed
qed

text \<open>
  The tokens of a text; \<open>None\<close> where no token starts.  Between tokens JSON allows the
  space, the tab, the line feed and the carriage return.  Python's decoder also reads the
  literals \<^verbatim>\<open>NaN\<close>, \<^verbatim>\<open>Infinity\<close> and \<^verbatim>\<open>-Infinity\<close> as numbers.
\<close>

function lex :: "string \<Rightarrow> token list option" where
  "lex [] = Some []"
| "lex (c # cs) =
     (if c \<in> set [CHR 0x20, CHR 0x09, CHR 0x0A, CHR 0x0D] then lex cs
      else if c = CHR ''['' then map_option ((#) TLBracket) (lex cs)
      else if c = CHR '']'' then map_option ((#) TRBracket) (lex cs)
      else if c = CHR ''{'' then map_option ((#) TLBrace) (lex cs)
      else if c = CHR ''}'' then map_option ((#) TRBrace) (lex cs)
      else if c = CHR '','' then map_option ((#) TComma) (lex cs)
      else if c = CHR '':'' then map_option ((#) TColon) (lex cs)
      else if c = CHR 0x22 then
        (case scanstring cs of
           None \<Rightarrow> None
         | Some (s, rest) \<Rightarrow> map_option ((#) (TString s)) (lex rest))
      else if 0 < number_len (c # cs) then
        map_option ((#) (TNumber (take (number_len (c # cs)) (c # cs))))
          (lex (drop (number_len (c # cs)) (c # cs)))
      else if startswith (c # cs) ''true'' then map_option ((#) TTrue) (lex (drop 3 cs))
      else if startswith (c # cs) ''false'' then map_option ((#) TFalse) (lex (drop 4 cs))
      else if startswith (c # cs) ''null'' then map_option ((#) TNull) (lex (drop 3 cs))
      else if startswith (c # cs) ''NaN'' then map_option ((#) (TNumber ''NaN'')) (lex (drop 2 cs))
      else if startswith (c # cs) ''Infinity'' then
        map_option ((#) (TNumber ''Infinity'')) (lex (drop 7 cs))
      else if startswith (c # cs) ''-Infinity'' then
        map_option ((#) (TNumber ''-Infinity'')) (lex (drop 8 cs))
      else None)"
  by pat_completeness auto
termination
  by (relation "measure length") (auto dest: scanstring_length)

declare lex.simps [simp del]

subsection \<open>Values\<close>

text \<open>
  The grammar, read token by token.  The stack holds the arrays and objects that are
  still open (their elements so far, last first), the mode says what may come next.
\<close>

datatype frame = FArray "json list" | FObject "(string \<times> json) list" "string option"

datatype mode = ExpectValue | ExpectValueOrEnd | ExpectKeyOrEnd | ExpectKey | ExpectColon
  | AfterValue | Done json

fun complete :: "json \<Rightarrow> frame list \<Rightarrow> (frame list \<times> mode) option" where
  "complete v [] = Some ([], Done v)"
| "complete v (FArray items # st) = Some (FArray (v # items) # st, AfterValue)"
| "complete v (FObject ms (Some k) # st) = Some (FObject ((k, v) # ms) None # st, AfterValue)"
| "complete v (FObject ms None # st) = None"

fun close_array :: "frame list \<Rightarrow> (frame list \<times> mode) option" where
  "close_array (FArray items # st) = complete (JArray (rev items)) st"
| "close_array _ = None"

fun close_object :: "frame list \<Rightarrow> (frame list \<times> mode) option" where
  "close_object (FObject ms None # st) = complete (JObject (rev ms)) st"
| "close_object _ = None"

fun shift_value :: "token \<Rightarrow> frame list \<Rightarrow> (frame list \<times> mode) option" where
  "shift_value TLBracket st = Some (FArray [] # st, ExpectValueOrEnd)"
| "shift_value TLBrace st = Some (FObject [] None # st, ExpectKeyOrEnd)"
| "shift_value (TString s) st = complete (JString s) st"
| "shift_value (TNumber n) st = complete (JNumber n) st"
| "shift_value TTrue st = complete (JBool True) st"
| "shift_value TFalse st = complete (JBool False) st"
| "shift_value TNull st = complete JNull st"
| "shift_value _ st = None"

fun shift_key :: "token \<Rightarrow> frame list \<Rightarrow> (frame list \<times> mode) option" where
  "shift_key (TString k) (FObject ms None # st) = Some (FObject ms (Some k) # st, ExpectColon)"
| "shift_key _ _ = None"

fun shift_separator :: "token \<Rightarrow> frame list \<Rightarrow> (frame list \<times> mode) option" where
  "shift_separator TComma (FArray items # st) = Some (FArray items # st, ExpectValue)"
| "shift_separator TComma (FObject ms k # st) = Some (FObject ms k # st, ExpectKey)"
| "shift_separator TRBracket st = close_array st"
| "shift_separator TRBrace st = close_object st"
| "shift_separator _ _ = None"

fun step :: "token \<Rightarrow> frame list \<times> mode \<Rightarrow> (frame list \<times> mode) option" where
  "step t (st, ExpectValue) = shift_value t st"
| "step t (st, ExpectValueOrEnd) = (if t = TRBracket then close_array st else shift_value t st)"
| "step t (st, ExpectKeyOrEnd) = (if t = TRBrace then close_object st else shift_key t st)"
| "step t (st, ExpectKey) = shift_key t st"
| "step t (st, ExpectColon) = (if t = TColon then Some (st, ExpectValue) else None)"
| "step t (st, AfterValue) = shift_separator t st"
| "step t (st, Done v) = None"

fun run :: "token list \<Rightarrow> frame list \<times> mode \<Rightarrow> (frame list \<times> mode) option" where
  "run [] s = Some s"
| "run (t # ts) s = (case step t s of None \<Rightarrow> None | Some s' \<Rightarrow> run ts s')"

definition json_loads :: "string \<Rightarrow> error + json" where
  "json_loads s =
     (case lex s of
        None \<Rightarrow> Inl JSONDecodeError
      | Some ts \<Rightarrow>
        (case run ts ([], ExpectValue) of
           Some ([], Done v) \<Rightarrow> Inr v
         | _ \<Rightarrow> Inl JSONDecodeError))"


section \<open>The settings and their validation\<close>

text \<open>
  \<^verbatim>\<open>ConfluenceConfig\<close> and \<^verbatim>\<open>SyncConfig\<close> are pydantic models.  A \<^verbatim>\<open>pathlib.Path\<close> is
  kept as the string it was built from (the normalisation of \<^verbatim>\<open>.\<close> and of repeated
  slashes is not modelled).
\<close>

datatype path = Path string

fun path_str :: "path \<Rightarrow> string" where
  "path_str (Path s) = s"

record ConfluenceConfig =
  url :: string
  api_token :: string
  space_key :: string
  username :: "string option"

record SyncConfig =
  confluence :: ConfluenceConfig
  local_path :: path
  ignore_patterns :: "string list"

text \<open>
  Validation as pydantic 2 does it in its default mode, on the objects above: a \<^verbatim>\<open>str\<close>
  field takes a string and nothing else (the empty string included), \<^verbatim>\<open>Optional[str]\<close>
  also \<^verbatim>\<open>None\<close>, a \<^verbatim>\<open>Path\<close> field a string, \<^verbatim>\<open>list[str]\<close> a list of strings, a model
  field a dict; a field without a default must be present; keys that name no field are
  ignored.  All errors are collected, each with the location of its input and its type.
\<close>

definition errors_of :: "line_error list + 'a \<Rightarrow> line_error list" where
  "errors_of r = (case r of Inl es \<Rightarrow> es | Inr x \<Rightarrow> [])"

definition required_str :: "loc_item list \<Rightarrow> dict \<Rightarrow> string \<Rightarrow> line_error list + string" where
  "required_str loc d name =
     (case dict_get d (PStr name) of
        None \<Rightarrow> Inl [(loc @ [LocKey name], ''missing'')]
      | Some (PStr s) \<Rightarrow> Inr s
      | Some _ \<Rightarrow> Inl [(loc @ [LocKey name], ''string_type'')])"

definition optional_str ::
  "loc_item list \<Rightarrow> dict \<Rightarrow> string \<Rightarrow> line_error list + string option" where
  "optional_str loc d name =
     (case dict_get d (PStr name) of
        None \<Rightarrow> Inr None
      | Some PNone \<Rightarrow> Inr None
      | Some (PStr s) \<Rightarrow> Inr (Some s)
      | Some _ \<Rightarrow> Inl [(loc @ [LocKey name], ''string_type'')])"

definition ConfluenceConfig_validate ::
  "loc_item list \<Rightarrow> pyval \<Rightarrow> line_error list + ConfluenceConfig" where
  "ConfluenceConfig_validate loc v =
     (case v of
        PDict d \<Rightarrow>
          (let u = required_str loc d ''url'';
               t = required_str loc d ''api_token'';
               k = required_str loc d ''space_key'';
               n = optional_str loc d ''username''
           in (case (u, t, k, n) of
                 (Inr u', Inr t', Inr k', Inr n') \<Rightarrow>
                   Inr \<lparr>url = u', api_token = t', space_key = k', username = n'\<rparr>
               | _ \<Rightarrow> Inl (errors_of u @ errors_of t @ errors_of k @ errors_of n)))
      | _ \<Rightarrow> Inl [(loc, ''model_type'')])"

fun validate_items :: "loc_item list \<Rightarrow> nat \<Rightarrow> pyval list \<Rightarrow> line_error list + string list" where
  "validate_items loc i [] = Inr []"
| "validate_items loc i (x # xs) =
     (case (x, validate_items loc (Suc i) xs) of
        (PStr s, Inr ss) \<Rightarrow> Inr (s # ss)
      | (PStr s, Inl es) \<Rightarrow> Inl es
      | (_, r) \<Rightarrow> Inl ((loc @ [LocIndex i], ''string_type'') # errors_of r))"

definition SyncConfig_init :: "dict \<Rightarrow> error + SyncConfig" where
  "SyncConfig_init kwargs =
     (if \<not> list_all (\<lambda>(k, v). isinstance_str k) kwargs then Inl TypeError
      else
        (let c = (case dict_get kwargs (PStr ''confluence'') of
                    None \<Rightarrow> Inl [([LocKey ''confluence''], ''missing'')]
                  | Some v \<Rightarrow> ConfluenceConfig_validate [LocKey ''confluence''] v);
             p = (case dict_get kwargs (PStr ''local_path'') of
                    None \<Rightarrow> Inr (Path ''docs'')
                  | Some (PStr s) \<Rightarrow> Inr (Path s)
                  | Some _ \<Rightarrow> Inl [([LocKey ''local_path''], ''path_type'')]);
             i = (case dict_get kwargs (PStr ''ignore_patterns'') of
                    None \<Rightarrow> Inr []
                  | Some (PList xs) \<Rightarrow> validate_items [LocKey ''ignore_patterns''] 0 xs
                  | Some _ \<Rightarrow> Inl [([LocKey ''ignore_patterns''], ''list_type'')])
         in (case (c, p, i) of
               (Inr c', Inr p', Inr i') \<Rightarrow>
                 Inr \<lparr>confluence = c', local_path = p', ignore_patterns = i'\<rparr>
             | _ \<Rightarrow> Inl (ValidationError (errors_of c @ errors_of p @ errors_of i)))))"

section \<open>The loader\<close>

text \<open>
  What the loader reads and writes: the environment of the process, the files (a file is
  given by the object \<^verbatim>\<open>yaml.safe_load\<close> builds from its text, or it is no YAML), and
  the variables \<^verbatim>\<open>load_dotenv()\<close> finds in a \<^verbatim>\<open>.env\<close> file (\<open>None\<close> when the package
  cannot be imported).  A path that exists is taken to be a file that can be read, and
  writing a file to succeed.  The object itself holds the path and the cached settings
  (\<^verbatim>\<open>_config\<close>, here \<open>priv_config\<close>).  The methods \<^verbatim>\<open>_get_env\<close>,
  \<^verbatim>\<open>_parse_ignore_patterns\<close> and \<^verbatim>\<open>_overlay_env\<close> are \<open>get_env\<close>,
  \<open>parse_ignore_patterns\<close> and \<open>overlay_env\<close>; \<open>get_env\<close> and \<open>overlay_env\<close> take the
  environment they read as an argument.
\<close>

datatype content = Yaml pyval | Malformed

record world =
  environ :: "string \<rightharpoonup> string"
  files :: "path \<rightharpoonup> content"
  dotenv :: "(string \<rightharpoonup> string) option"

record Config =
  config_path :: path
  priv_config :: "SyncConfig option"

definition Config_init :: "path option \<Rightarrow> Config" where
  "Config_init p =
     \<lparr>config_path = (case p of None \<Rightarrow> Path ''confluence-sync.yml'' | Some q \<Rightarrow> q),
      priv_config = None\<rparr>"

text \<open>\<^verbatim>\<open>load_dotenv()\<close> sets the variables of the \<^verbatim>\<open>.env\<close> file that the process has not set.\<close>

definition load_dotenv :: "world \<Rightarrow> world" where
  "load_dotenv w =
     (case dotenv w of
        None \<Rightarrow> w
      | Some vars \<Rightarrow> w\<lparr>environ := vars ++ environ w\<rparr>)"

definition get_env :: "(string \<rightharpoonup> string) \<Rightarrow> string \<Rightarrow> string option" where
  "get_env env name =
     (case env name of
        None \<Rightarrow> None
      | Some v \<Rightarrow> (if strip v \<noteq> [] then Some (strip v) else None))"

fun json_strings :: "json list \<Rightarrow> string list option" where
  "json_strings [] = Some []"
| "json_strings (JString s # xs) = map_option ((#) s) (json_strings xs)"
| "json_strings (_ # xs) = None"

definition parse_ignore_patterns :: "string \<Rightarrow> error + string list" where
  "parse_ignore_patterns v =
     (let raw = strip v in
      if startswith raw ''['' then
        (case json_loads raw of
           Inl e \<Rightarrow> Inl e
         | Inr parsed \<Rightarrow>
           (case parsed of
              JArray xs \<Rightarrow>
                (case json_strings xs of
                   Some ss \<Rightarrow> Inr (map strip (filter (\<lambda>x. strip x \<noteq> []) ss))
                 | None \<Rightarrow>
                     Inl (ValueError
                       ''IGNORE_PATTERNS must be a JSON array of strings or a comma-separated list''))
            | _ \<Rightarrow>
                Inl (ValueError
                  ''IGNORE_PATTERNS must be a JSON array of strings or a comma-separated list'')))
      else
        (let parts = map strip (split (CHR '','') raw)
         in Inr (filter (\<lambda>p. p \<noteq> []) parts)))"

definition and_then :: "error + 'a \<Rightarrow> ('a \<Rightarrow> error + 'b) \<Rightarrow> error + 'b" where
  "and_then r f = (case r of Inl e \<Rightarrow> Inl e | Inr x \<Rightarrow> f x)"

text \<open>\<^verbatim>\<open>if v is not None: obj[k] = v\<close>\<close>

definition assign :: "pyval \<Rightarrow> string \<Rightarrow> string option \<Rightarrow> error + pyval" where
  "assign obj k v = (case v of None \<Rightarrow> Inr obj | Some s \<Rightarrow> setitem obj k (PStr s))"

definition overlay_env :: "(string \<rightharpoonup> string) \<Rightarrow> dict \<Rightarrow> error + dict" where
  "overlay_env env config_data =
     (let out = config_data in
      and_then (py_dict (py_or (get out ''confluence'') (PDict []))) (\<lambda>confluence.
      if truthy confluence \<and> \<not> isinstance_dict confluence then
        Inl (ValueError ''Invalid config: 'confluence' must be a mapping/object'')
      else
      and_then (assign confluence ''url'' (get_env env ''CONFLUENCE_URL'')) (\<lambda>confluence.
      and_then (assign confluence ''api_token'' (get_env env ''CONFLUENCE_API_TOKEN'')) (\<lambda>confluence.
      and_then (assign confluence ''space_key'' (get_env env ''CONFLUENCE_SPACE_KEY'')) (\<lambda>confluence.
      and_then (assign confluence ''username'' (get_env env ''CONFLUENCE_USERNAME'')) (\<lambda>confluence.
      (let out = (if truthy confluence then dict_set out (PStr ''confluence'') confluence else out);
           out = (case get_env env ''LOCAL_PATH'' of
                    None \<Rightarrow> out
                  | Some p \<Rightarrow> dict_set out (PStr ''local_path'') (PStr p))
       in (case get_env env ''IGNORE_PATTERNS'' of
             None \<Rightarrow> Inr out
           | Some ignore_patterns_raw \<Rightarrow>
               and_then (parse_ignore_patterns ignore_patterns_raw) (\<lambda>patterns.
               Inr (dict_set out (PStr ''ignore_patterns'') (PList (map PStr patterns))))))))))))"

text \<open>Lines 39 to 47 of \<^verbatim>\<open>load\<close>: the mapping read from the file, empty when there is none.\<close>

definition load_config_data :: "world \<Rightarrow> path \<Rightarrow> error + dict" where
  "load_config_data w p =
     (case files w p of
        None \<Rightarrow> Inr []
      | Some Malformed \<Rightarrow> Inl YAMLError
      | Some (Yaml loaded) \<Rightarrow>
          if truthy loaded then
            (case loaded of
               PDict d \<Rightarrow> Inr d
             | _ \<Rightarrow> Inl (ValueError (''Config file must contain a YAML mapping/object: '' @ path_str p)))
          else Inr [])"

text \<open>Lines 39 to 49: the mapping handed to \<^verbatim>\<open>SyncConfig(**config_data)\<close>.\<close>

definition merged_config_data :: "world \<Rightarrow> path \<Rightarrow> error + dict" where
  "merged_config_data w p = and_then (load_config_data w p) (overlay_env (environ w))"

text \<open>
  \<^verbatim>\<open>load\<close>: the result or the exception, the world (its environment after
  \<^verbatim>\<open>load_dotenv()\<close>) and the object; \<^verbatim>\<open>self._config\<close> is assigned on the last line but one.
\<close>

definition load :: "world \<Rightarrow> Config \<Rightarrow> (error + SyncConfig) \<times> world \<times> Config" where
  "load w0 self =
     (let w = load_dotenv w0 in
      case and_then (merged_config_data w (config_path self)) SyncConfig_init of
        Inl e \<Rightarrow> (Inl e, w, self)
      | Inr cfg \<Rightarrow> (Inr cfg, w, self\<lparr>priv_config := Some cfg\<rparr>))"

text \<open>The property \<^verbatim>\<open>config\<close>.\<close>

definition config :: "world \<Rightarrow> Config \<Rightarrow> (error + SyncConfig) \<times> world \<times> Config" where
  "config w self =
     (case priv_config self of
        None \<Rightarrow> load w self
      | Some cfg \<Rightarrow> (Inr cfg, w, self))"


subsection \<open>Writing the template\<close>

text \<open>
  \<^verbatim>\<open>yaml.dump\<close> writes the items of a mapping sorted by key (\<^verbatim>\<open>sort_keys\<close> is on by
  default), strings in the order of their code points.  \<open>yaml_dump v\<close> is the object that
  \<^verbatim>\<open>yaml.safe_load\<close> reads back from the text written for \<open>v\<close>.  Only mappings whose
  keys are all strings are sorted here; no other is ever written.
\<close>

fun str_le :: "string \<Rightarrow> string \<Rightarrow> bool" where
  "str_le [] t = True"
| "str_le (a # s) [] = False"
| "str_le (a # s) (b # t) =
     ((of_char a :: nat) < of_char b \<or> (a = b \<and> str_le s t))"

fun key_le :: "pyval \<Rightarrow> pyval \<Rightarrow> bool" where
  "key_le (PStr a) (PStr b) = str_le a b"
| "key_le _ _ = True"

fun insert_item :: "pyval \<times> pyval \<Rightarrow> dict \<Rightarrow> dict" where
  "insert_item kv [] = [kv]"
| "insert_item kv (kv' # d) =
     (if key_le (fst kv) (fst kv') then kv # kv' # d else kv' # insert_item kv d)"

definition sort_items :: "dict \<Rightarrow> dict" where
  "sort_items d =
     (if list_all (\<lambda>(k, v). isinstance_str k) d then foldr insert_item d [] else d)"

fun yaml_dump :: "pyval \<Rightarrow> pyval" where
  "yaml_dump (PList xs) = PList (map yaml_dump xs)"
| "yaml_dump (PDict d) = PDict (sort_items (map (\<lambda>(k, v). (k, yaml_dump v)) d))"
| "yaml_dump v = v"

definition template :: pyval where
  "template =
     PDict
       [(PStr ''confluence'',
           PDict
             [(PStr ''url'', PStr ''https://your-domain.atlassian.net''),
              (PStr ''api_token'', PStr ''your-api-token''),
              (PStr ''space_key'', PStr ''YOUR_SPACE_KEY'')]),
        (PStr ''local_path'', PStr ''docs''),
        (PStr ''ignore_patterns'', PList [PStr ''*.tmp'', PStr ''.git/*''])]"

definition save_template :: "world \<Rightarrow> Config \<Rightarrow> world" where
  "save_template w self = w\<lparr>files := (files w)(config_path self \<mapsto> Yaml (yaml_dump template))\<rparr>"


section \<open>Auxiliary notions\<close>

text \<open>
  Notions used to state and prove the properties below.  \<open>set_opt\<close> is the conditional
  assignment on the items of a dict; \<open>env_confluence\<close> is the \<^verbatim>\<open>confluence\<close> mapping
  after the four assignments of lines 67 to 74, \<open>env_top\<close> the rest of \<^verbatim>\<open>_overlay_env\<close>
  (lines 76 to 88).
\<close>

definition set_opt :: "dict \<Rightarrow> string \<Rightarrow> string option \<Rightarrow> dict" where
  "set_opt d k v = (case v of None \<Rightarrow> d | Some s \<Rightarrow> dict_set d (PStr k) (PStr s))"

definition env_confluence :: "(string \<rightharpoonup> string) \<Rightarrow> dict \<Rightarrow> dict" where
  "env_confluence env c =
     set_opt (set_opt (set_opt (set_opt c
       ''url'' (get_env env ''CONFLUENCE_URL''))
       ''api_token'' (get_env env ''CONFLUENCE_API_TOKEN''))
       ''space_key'' (get_env env ''CONFLUENCE_SPACE_KEY''))
       ''username'' (get_env env ''CONFLUENCE_USERNAME'')"

definition env_top :: "(string \<rightharpoonup> string) \<Rightarrow> dict \<Rightarrow> dict \<Rightarrow> error + dict" where
  "env_top env d c =
     (let out = (if c \<noteq> [] then dict_set d (PStr ''confluence'') (PDict c) else d);
          out = set_opt out ''local_path'' (get_env env ''LOCAL_PATH'')
      in (case get_env env ''IGNORE_PATTERNS'' of
            None \<Rightarrow> Inr out
          | Some raw \<Rightarrow>
            (case parse_ignore_patterns raw of
               Inl e \<Rightarrow> Inl e
             | Inr ps \<Rightarrow> Inr (dict_set out (PStr ''ignore_patterns'') (PList (map PStr ps))))))"

text \<open>The six variables \<^verbatim>\<open>_overlay_env\<close> reads.\<close>

definition env_names :: "string list" where
  "env_names =
     [''CONFLUENCE_URL'', ''CONFLUENCE_API_TOKEN'', ''CONFLUENCE_SPACE_KEY'',
      ''CONFLUENCE_USERNAME'', ''LOCAL_PATH'', ''IGNORE_PATTERNS'']"

text \<open>The world in which a variable is set neither by the process nor by the \<^verbatim>\<open>.env\<close> file.\<close>

definition unset :: "string \<Rightarrow> world \<Rightarrow> world" where
  "unset n w =
     w\<lparr>environ := (environ w)(n := None),
       dotenv := map_option (\<lambda>vars. vars(n := None)) (dotenv w)\<rparr>"

section \<open>Facts about dicts and \<^verbatim>\<open>_overlay_env\<close>\<close>

subsection \<open>Dicts and the constructor \<^verbatim>\<open>dict\<close>\<close>

lemma key_eq_PStr [simp]: "key_eq k (PStr s) = (k = PStr s)"
  by (cases k) (auto simp: key_eq_def)

lemma key_eq_refl [simp]: "key_eq k k"
  by (cases k) (auto simp: key_eq_def)

lemma dict_get_set [simp]:
  "dict_get (dict_set d (PStr k) v) (PStr k') = (if k = k' then Some v else dict_get d (PStr k'))"
  by (induction d) auto

lemma dict_set_nonempty [simp]: "dict_set d k v \<noteq> []"
  by (cases d) (auto split: if_splits)

lemma str_keys_dict_set:
  "list_all (\<lambda>(k, v). isinstance_str k) (dict_set d (PStr k) v) = list_all (\<lambda>(k, v). isinstance_str k) d"
  by (induction d) (auto split: if_splits)

lemma dict_update_seq_error:
  "dict_update_seq acc i es = Inl e \<Longrightarrow> e = TypeError \<or> (\<exists>j n. e = ValueError (length_message j n))"
  by (induction acc i es rule: dict_update_seq.induct)
     (auto split: option.splits list.splits if_splits)

lemma dict_update_seq_nonempty:
  "dict_update_seq acc i es = Inr d \<Longrightarrow> acc \<noteq> [] \<or> es \<noteq> [] \<Longrightarrow> d \<noteq> []"
  by (induction acc i es rule: dict_update_seq.induct)
     (auto split: option.splits list.splits if_splits)

lemma py_dict_Inl:
  "py_dict x = Inl e \<Longrightarrow> e = TypeError \<or> (\<exists>j n. e = ValueError (length_message j n))"
  by (cases x)
     (auto simp: py_dict_def split: option.splits sum.splits dest: dict_update_seq_error)

lemma py_dict_Inr:
  assumes "py_dict x = Inr v"
  shows "\<exists>c. v = PDict c \<and> (truthy x \<longrightarrow> c \<noteq> [])"
proof -
  have seq: "\<exists>c. v = PDict c \<and> (es \<noteq> [] \<longrightarrow> c \<noteq> [])"
    if "py_iter x = Some es" and "\<not> isinstance_dict x" for es
  proof -
    from that assms obtain d where d: "dict_update_seq [] 0 es = Inr d" and v: "v = PDict d"
      by (cases x) (auto simp: py_dict_def split: sum.splits)
    from dict_update_seq_nonempty [OF d] v show ?thesis by simp
  qed
  show ?thesis
  proof (cases x)
    case (PDict d)
    from assms have "v = PDict d" unfolding PDict py_dict_def by simp
    with PDict show ?thesis by simp
  next
    case (PList xs)
    then have "py_iter x = Some xs" and "\<not> isinstance_dict x"
      by simp_all
    from seq [OF this] PList show ?thesis by simp
  next
    case (PStr s)
    then have "py_iter x = Some (map PStr (code_points s))" and "\<not> isinstance_dict x"
      by simp_all
    from seq [OF this] obtain c where c: "v = PDict c" "code_points s \<noteq> [] \<longrightarrow> c \<noteq> []"
      by auto
    have "s \<noteq> [] \<longrightarrow> code_points s \<noteq> []" by (cases s) simp_all
    with c PStr show ?thesis by simp
  next
    case PNone
    with assms show ?thesis by (simp add: py_dict_def)
  next
    case (PBool b)
    with assms show ?thesis by (simp add: py_dict_def)
  next
    case (PInt i)
    with assms show ?thesis by (simp add: py_dict_def)
  next
    case (PFloat r)
    with assms show ?thesis by (simp add: py_dict_def)
  qed
qed

subsection \<open>The two halves of \<^verbatim>\<open>_overlay_env\<close>, and what it can raise\<close>

lemma length_message_neq:
  "length_message j n \<noteq> ''Invalid config: 'confluence' must be a mapping/object''"
  by (simp add: length_message_def)

lemma assign_PDict: "assign (PDict d) k v = Inr (PDict (set_opt d k v))"
  by (simp add: assign_def setitem_def set_opt_def split: option.splits)

lemma dict_get_set_opt:
  "dict_get (set_opt d k v) (PStr k') =
     (if k = k' \<and> v \<noteq> None then map_option PStr v else dict_get d (PStr k'))"
  by (cases v) (simp_all add: set_opt_def)

lemma overlay_env_Inl:
  "py_dict (py_or (get d ''confluence'') (PDict [])) = Inl e \<Longrightarrow> overlay_env env d = Inl e"
  by (simp add: overlay_env_def and_then_def)

lemma overlay_env_Inr:
  assumes "py_dict (py_or (get d ''confluence'') (PDict [])) = Inr (PDict c)"
  shows "overlay_env env d = env_top env d (env_confluence env c)"
  unfolding overlay_env_def Let_def and_then_def assms sum.case assign_PDict env_top_def env_confluence_def
  by (simp add: set_opt_def split: option.splits sum.splits)

lemma json_loads_Inl: "json_loads s = Inl e \<Longrightarrow> e = JSONDecodeError"
  unfolding json_loads_def
  by (simp split: option.splits prod.splits list.splits mode.splits)

lemma parse_ignore_patterns_Inl:
  "parse_ignore_patterns v = Inl e \<Longrightarrow>
     e = JSONDecodeError \<or>
     e = ValueError ''IGNORE_PATTERNS must be a JSON array of strings or a comma-separated list''"
  unfolding parse_ignore_patterns_def Let_def
  by (auto split: if_splits sum.splits json.splits option.splits dest: json_loads_Inl)

lemma env_top_Inl:
  "env_top env d c = Inl e \<Longrightarrow>
     e = JSONDecodeError \<or>
     e = ValueError ''IGNORE_PATTERNS must be a JSON array of strings or a comma-separated list''"
  unfolding env_top_def Let_def
  by (auto split: option.splits sum.splits dest: parse_ignore_patterns_Inl)

lemmas load_defs =
  load_def load_dotenv_def merged_config_data_def load_config_data_def and_then_def
  overlay_env_def get_env_def get_def py_or_def py_dict_def key_eq_def assign_def setitem_def
  SyncConfig_init_def ConfluenceConfig_validate_def required_str_def optional_str_def
  errors_of_def

lemmas strip_defs =
  strip_def lstrip_def rstrip_def whitespace_def lstrip_with.simps startswith_def

subsection \<open>Trimming twice is trimming once\<close>

lemma lstrip_with_fixed:
  "find (\<lambda>w. w \<noteq> [] \<and> startswith s w) ws = None \<Longrightarrow> lstrip_with ws s = s"
  by (simp add: lstrip_with.simps)

lemma lstrip_with_no_prefix:
  "find (\<lambda>w. w \<noteq> [] \<and> startswith (lstrip_with ws s) w) ws = None"
proof (induction ws s rule: lstrip_with.induct)
  case (1 ws s)
  show ?case
  proof (cases "find (\<lambda>w. w \<noteq> [] \<and> startswith s w) ws")
    case None
    then show ?thesis by (simp add: lstrip_with.simps)
  next
    case (Some w)
    with "1.IH" [OF Some] show ?thesis by (simp add: lstrip_with.simps [of ws s])
  qed
qed

lemma lstrip_with_suffix: "\<exists>p. s = p @ lstrip_with ws s"
proof (induction ws s rule: lstrip_with.induct)
  case (1 ws s)
  show ?case
  proof (cases "find (\<lambda>w. w \<noteq> [] \<and> startswith s w) ws")
    case None
    then show ?thesis by (simp add: lstrip_with.simps)
  next
    case (Some w)
    from "1.IH" [OF Some] obtain p where "drop (length w) s = p @ lstrip_with ws (drop (length w) s)"
      by blast
    then have "take (length w) s @ drop (length w) s =
                 (take (length w) s @ p) @ lstrip_with ws (drop (length w) s)"
      by simp
    then have "s = (take (length w) s @ p) @ lstrip_with ws (drop (length w) s)"
      by (simp only: append_take_drop_id)
    moreover have "lstrip_with ws s = lstrip_with ws (drop (length w) s)"
      using Some by (simp add: lstrip_with.simps [of ws s])
    ultimately have "s = (take (length w) s @ p) @ lstrip_with ws s"
      by simp
    then show ?thesis by (rule exI)
  qed
qed

lemma no_prefix_of_prefix:
  assumes "find (\<lambda>w. w \<noteq> [] \<and> startswith (b @ q) w) ws = None"
  shows "find (\<lambda>w. w \<noteq> [] \<and> startswith b w) ws = None"
proof -
  have "\<not> (w \<noteq> [] \<and> startswith b w)" if "w \<in> set ws" for w
  proof
    assume w: "w \<noteq> [] \<and> startswith b w"
    then have "take (length w) b = w" by (simp add: startswith_def)
    then have "length (take (length w) b) = length w" by simp
    then have "length w \<le> length b" by (simp add: min_def split: if_splits)
    with w have "startswith (b @ q) w" by (simp add: startswith_def)
    with assms that w show False by (auto simp: find_None_iff)
  qed
  then show ?thesis by (auto simp: find_None_iff)
qed

lemma rstrip_prefix: "\<exists>q. t = rstrip t @ q"
proof -
  from lstrip_with_suffix [of "rev t" "map rev whitespace"] obtain p
    where "rev t = p @ lstrip_with (map rev whitespace) (rev t)" by blast
  then have "t = rev (lstrip_with (map rev whitespace) (rev t)) @ rev p"
    by (metis rev_append rev_rev_ident)
  then show ?thesis by (auto simp: rstrip_def)
qed

lemma rstrip_idem: "rstrip (rstrip t) = rstrip t"
  by (simp add: rstrip_def lstrip_with_fixed [OF lstrip_with_no_prefix])

lemma strip_idem: "strip (strip s) = strip s"
proof -
  obtain q where q: "lstrip s = rstrip (lstrip s) @ q"
    using rstrip_prefix by blast
  have "find (\<lambda>w. w \<noteq> [] \<and> startswith (lstrip s) w) whitespace = None"
    unfolding lstrip_def by (rule lstrip_with_no_prefix)
  with q have "find (\<lambda>w. w \<noteq> [] \<and> startswith (rstrip (lstrip s)) w) whitespace = None"
    using no_prefix_of_prefix [of "rstrip (lstrip s)" q whitespace] by simp
  then have "lstrip (rstrip (lstrip s)) = rstrip (lstrip s)"
    unfolding lstrip_def by (rule lstrip_with_fixed)
  then show ?thesis by (simp add: strip_def rstrip_idem)
qed

lemma strip_Nil [simp]: "strip [] = []"
  by (simp add: strip_defs)

subsection \<open>The two forms of \<^verbatim>\<open>IGNORE_PATTERNS\<close>\<close>

lemma json_strings_map [simp]: "json_strings (map JString ss) = Some ss"
  by (induction ss) simp_all

lemma json_strings_Some: "json_strings xs = Some ss \<Longrightarrow> xs = map JString ss"
  by (induction xs arbitrary: ss rule: json_strings.induct) auto

lemma filter_map_strip:
  "filter (\<lambda>p. p \<noteq> []) (map strip xs) = map strip (filter (\<lambda>x. strip x \<noteq> []) xs)"
  by (induction xs) simp_all

lemma parse_ignore_patterns_json:
  "startswith (strip v) ''['' \<Longrightarrow> json_loads (strip v) = Inr (JArray (map JString ss)) \<Longrightarrow>
     parse_ignore_patterns v = Inr (map strip (filter (\<lambda>x. strip x \<noteq> []) ss))"
  by (simp add: parse_ignore_patterns_def)

lemma parse_ignore_patterns_json_only:
  "startswith (strip v) ''['' \<Longrightarrow> parse_ignore_patterns v = Inr ps \<Longrightarrow>
     \<exists>ss. json_loads (strip v) = Inr (JArray (map JString ss))"
  by (auto simp: parse_ignore_patterns_def split: sum.splits json.splits option.splits
           dest: json_strings_Some)

lemma parse_ignore_patterns_commas:
  "\<not> startswith (strip v) ''['' \<Longrightarrow>
     parse_ignore_patterns v =
       Inr (map strip (filter (\<lambda>p. strip p \<noteq> []) (split (CHR '','') (strip v))))"
  by (simp add: parse_ignore_patterns_def filter_map_strip)

lemma parse_ignore_patterns_entries:
  assumes "parse_ignore_patterns v = Inr ps" and "p \<in> set ps"
  shows "p \<noteq> [] \<and> strip p = p"
proof (cases "startswith (strip v) ''[''")
  case True
  from parse_ignore_patterns_json_only [OF True assms(1)] obtain ss
    where "json_loads (strip v) = Inr (JArray (map JString ss))" by blast
  from parse_ignore_patterns_json [OF True this] assms show ?thesis
    by (auto simp: strip_idem)
next
  case False
  from parse_ignore_patterns_commas [OF False] assms show ?thesis
    by (auto simp: strip_idem)
qed

lemma parse_example_commas: "parse_ignore_patterns ''*.tmp,*.log'' = Inr [''*.tmp'', ''*.log'']"
  by (simp add: parse_ignore_patterns_def strip_defs)

lemma strip_example_json: \<open>strip ''["*.tmp", "*.log"]'' = ''["*.tmp", "*.log"]''\<close>
  by (simp add: strip_defs)

lemma json_loads_example:
  \<open>json_loads ''["*.tmp", "*.log"]'' = Inr (JArray (map JString [''*.tmp'', ''*.log'']))\<close>
  by (simp add: json_loads_def lex.simps scanstring.simps prepend_def number_len_def)

lemma strip_example_entries: "strip ''*.tmp'' = ''*.tmp''" "strip ''*.log'' = ''*.log''"
  by (simp_all add: strip_defs)

lemma parse_example_json:
  \<open>parse_ignore_patterns ''["*.tmp", "*.log"]'' = Inr [''*.tmp'', ''*.log'']\<close>
  using parse_ignore_patterns_json [of \<open>''["*.tmp", "*.log"]''\<close> "[''*.tmp'', ''*.log'']"]
  by (simp add: strip_example_json json_loads_example strip_example_entries startswith_def)

subsection \<open>\<^verbatim>\<open>load\<close> sees the environment only through \<^verbatim>\<open>_get_env\<close>\<close>

lemma environ_load_dotenv:
  "environ (load_dotenv w) n =
     (case environ w n of
        Some v \<Rightarrow> Some v
      | None \<Rightarrow> (case dotenv w of None \<Rightarrow> None | Some vars \<Rightarrow> vars n))"
  by (simp add: load_dotenv_def map_add_def split: option.splits)

lemma files_load_dotenv [simp]: "files (load_dotenv w) = files w"
  by (simp add: load_dotenv_def split: option.splits)

lemma load_config_data_files:
  "files w1 = files w2 \<Longrightarrow> load_config_data w1 p = load_config_data w2 p"
  by (simp add: load_config_data_def)

lemma overlay_env_cong:
  assumes "\<forall>n \<in> set env_names. get_env env1 n = get_env env2 n"
  shows "overlay_env env1 d = overlay_env env2 d"
proof -
  from assms have
    "get_env env1 ''CONFLUENCE_URL'' = get_env env2 ''CONFLUENCE_URL''"
    "get_env env1 ''CONFLUENCE_API_TOKEN'' = get_env env2 ''CONFLUENCE_API_TOKEN''"
    "get_env env1 ''CONFLUENCE_SPACE_KEY'' = get_env env2 ''CONFLUENCE_SPACE_KEY''"
    "get_env env1 ''CONFLUENCE_USERNAME'' = get_env env2 ''CONFLUENCE_USERNAME''"
    "get_env env1 ''LOCAL_PATH'' = get_env env2 ''LOCAL_PATH''"
    "get_env env1 ''IGNORE_PATTERNS'' = get_env env2 ''IGNORE_PATTERNS''"
    by (simp_all add: env_names_def)
  then show ?thesis
    unfolding overlay_env_def by (simp only:)
qed

lemma load_cong:
  assumes "files w1 = files w2"
    and "\<forall>n \<in> set env_names.
           get_env (environ (load_dotenv w1)) n = get_env (environ (load_dotenv w2)) n"
  shows "fst (load w1 self) = fst (load w2 self) \<and>
         snd (snd (load w1 self)) = snd (snd (load w2 self))"
proof -
  have "overlay_env (environ (load_dotenv w1)) = overlay_env (environ (load_dotenv w2))"
    by (rule ext) (rule overlay_env_cong [OF assms(2)])
  moreover have "load_config_data (load_dotenv w1) (config_path self) =
                 load_config_data (load_dotenv w2) (config_path self)"
    using assms(1) by (simp add: load_config_data_def)
  ultimately have "merged_config_data (load_dotenv w1) (config_path self) =
        merged_config_data (load_dotenv w2) (config_path self)"
    unfolding merged_config_data_def by (simp only:)
  then show ?thesis
    by (simp add: load_def Let_def split: sum.splits)
qed

subsection \<open>What a successful validation tells\<close>

lemma validate_items_strings [simp]: "validate_items loc i (map PStr ps) = Inr ps"
  by (induction ps arbitrary: i) simp_all

lemma required_str_Inr:
  "required_str loc d name = Inr s \<longleftrightarrow> dict_get d (PStr name) = Some (PStr s)"
  by (auto simp: required_str_def split: option.splits pyval.splits)

lemma optional_str_Inr:
  "optional_str loc d name = Inr u \<longleftrightarrow>
     (case u of
        None \<Rightarrow> dict_get d (PStr name) = None \<or> dict_get d (PStr name) = Some PNone
      | Some s \<Rightarrow> dict_get d (PStr name) = Some (PStr s))"
  by (auto simp: optional_str_def split: option.splits pyval.splits)

lemma ConfluenceConfig_validate_Inr:
  "ConfluenceConfig_validate loc v = Inr c \<Longrightarrow>
     \<exists>d. v = PDict d \<and>
       required_str loc d ''url'' = Inr (url c) \<and>
       required_str loc d ''api_token'' = Inr (api_token c) \<and>
       required_str loc d ''space_key'' = Inr (space_key c) \<and>
       optional_str loc d ''username'' = Inr (username c)"
  unfolding ConfluenceConfig_validate_def Let_def
  by (cases v) (auto split: sum.splits)

lemma SyncConfig_init_Inr:
  assumes "SyncConfig_init kwargs = Inr cfg"
  shows "\<exists>v. dict_get kwargs (PStr ''confluence'') = Some v \<and>
           ConfluenceConfig_validate [LocKey ''confluence''] v = Inr (confluence cfg)"
    and "case dict_get kwargs (PStr ''local_path'') of
           None \<Rightarrow> local_path cfg = Path ''docs''
         | Some v \<Rightarrow> \<exists>s. v = PStr s \<and> local_path cfg = Path s"
    and "case dict_get kwargs (PStr ''ignore_patterns'') of
           None \<Rightarrow> ignore_patterns cfg = []
         | Some v \<Rightarrow> \<exists>xs. v = PList xs \<and>
             validate_items [LocKey ''ignore_patterns''] 0 xs = Inr (ignore_patterns cfg)"
    and "list_all (\<lambda>(k, v). isinstance_str k) kwargs"
  using assms unfolding SyncConfig_init_def Let_def
  by (auto split: if_splits sum.splits option.splits pyval.splits)

subsection \<open>From the settings back to the merged mapping\<close>

lemma load_Inr_D:
  "load w self = (Inr cfg, w', self') \<Longrightarrow>
     \<exists>d out. load_config_data (load_dotenv w) (config_path self) = Inr d \<and>
       overlay_env (environ (load_dotenv w)) d = Inr out \<and> SyncConfig_init out = Inr cfg"
  by (auto simp: load_def Let_def merged_config_data_def and_then_def split: sum.splits)

lemma overlay_env_Inr_D:
  assumes "overlay_env env d = Inr out"
  shows "\<exists>c. py_dict (py_or (get d ''confluence'') (PDict [])) = Inr (PDict c) \<and>
           env_top env d (env_confluence env c) = Inr out"
proof (cases "py_dict (py_or (get d ''confluence'') (PDict []))")
  case (Inl e)
  from overlay_env_Inl [OF Inl, of env] assms show ?thesis by simp
next
  case (Inr v)
  with py_dict_Inr [OF Inr] obtain c where
    c: "py_dict (py_or (get d ''confluence'') (PDict [])) = Inr (PDict c)"
    by auto
  from overlay_env_Inr [OF c, of env] assms c show ?thesis by auto
qed

lemma env_top_Inr_D:
  assumes "env_top env d c = Inr out"
  shows "dict_get out (PStr ''confluence'') =
           (if c \<noteq> [] then Some (PDict c) else dict_get d (PStr ''confluence''))"
    and "dict_get out (PStr ''local_path'') =
           (case get_env env ''LOCAL_PATH'' of
              None \<Rightarrow> dict_get d (PStr ''local_path'')
            | Some v \<Rightarrow> Some (PStr v))"
    and "case get_env env ''IGNORE_PATTERNS'' of
           None \<Rightarrow> dict_get out (PStr ''ignore_patterns'') = dict_get d (PStr ''ignore_patterns'')
         | Some raw \<Rightarrow> \<exists>ps. parse_ignore_patterns raw = Inr ps \<and>
             dict_get out (PStr ''ignore_patterns'') = Some (PList (map PStr ps))"
    and "list_all (\<lambda>(k, v). isinstance_str k) out = list_all (\<lambda>(k, v). isinstance_str k) d"
  using assms unfolding env_top_def Let_def set_opt_def
  by (auto split: option.splits sum.splits if_splits simp: str_keys_dict_set)

lemma env_confluence_get:
  "dict_get (env_confluence env c) (PStr ''url'') =
     (case get_env env ''CONFLUENCE_URL'' of
        None \<Rightarrow> dict_get c (PStr ''url'') | Some v \<Rightarrow> Some (PStr v))"
  "dict_get (env_confluence env c) (PStr ''api_token'') =
     (case get_env env ''CONFLUENCE_API_TOKEN'' of
        None \<Rightarrow> dict_get c (PStr ''api_token'') | Some v \<Rightarrow> Some (PStr v))"
  "dict_get (env_confluence env c) (PStr ''space_key'') =
     (case get_env env ''CONFLUENCE_SPACE_KEY'' of
        None \<Rightarrow> dict_get c (PStr ''space_key'') | Some v \<Rightarrow> Some (PStr v))"
  "dict_get (env_confluence env c) (PStr ''username'') =
     (case get_env env ''CONFLUENCE_USERNAME'' of
        None \<Rightarrow> dict_get c (PStr ''username'') | Some v \<Rightarrow> Some (PStr v))"
  by (simp_all add: env_confluence_def dict_get_set_opt split: option.splits)

lemma set_opt_nonempty: "d \<noteq> [] \<or> v \<noteq> None \<Longrightarrow> set_opt d k v \<noteq> []"
  by (cases v) (auto simp: set_opt_def)

lemma env_confluence_empty:
  "env_confluence env c = [] \<longleftrightarrow>
     c = [] \<and> get_env env ''CONFLUENCE_URL'' = None \<and> get_env env ''CONFLUENCE_API_TOKEN'' = None \<and>
     get_env env ''CONFLUENCE_SPACE_KEY'' = None \<and> get_env env ''CONFLUENCE_USERNAME'' = None"
  unfolding env_confluence_def set_opt_def
  by (auto split: option.splits)

lemma load_env_confluence:
  assumes "load w self = (Inr cfg, w', self')"
  shows "\<exists>d c. load_config_data (load_dotenv w) (config_path self) = Inr d \<and>
           py_dict (py_or (get d ''confluence'') (PDict [])) = Inr (PDict c) \<and>
           (env_confluence (environ (load_dotenv w)) c \<noteq> [] \<longrightarrow>
              dict_get (env_confluence (environ (load_dotenv w)) c) (PStr ''url'')
                = Some (PStr (url (confluence cfg))) \<and>
              dict_get (env_confluence (environ (load_dotenv w)) c) (PStr ''api_token'')
                = Some (PStr (api_token (confluence cfg))) \<and>
              dict_get (env_confluence (environ (load_dotenv w)) c) (PStr ''space_key'')
                = Some (PStr (space_key (confluence cfg))) \<and>
              optional_str [LocKey ''confluence''] (env_confluence (environ (load_dotenv w)) c)
                ''username'' = Inr (username (confluence cfg)))"
proof -
  from load_Inr_D [OF assms] obtain d out where
    d: "load_config_data (load_dotenv w) (config_path self) = Inr d" and
    out: "overlay_env (environ (load_dotenv w)) d = Inr out" and
    init: "SyncConfig_init out = Inr cfg"
    by blast
  from overlay_env_Inr_D [OF out] obtain c where
    c: "py_dict (py_or (get d ''confluence'') (PDict [])) = Inr (PDict c)" and
    top: "env_top (environ (load_dotenv w)) d (env_confluence (environ (load_dotenv w)) c) = Inr out"
    by blast
  from SyncConfig_init_Inr(1) [OF init] obtain v where
    v: "dict_get out (PStr ''confluence'') = Some v" and
    val: "ConfluenceConfig_validate [LocKey ''confluence''] v = Inr (confluence cfg)"
    by blast
  have "env_confluence (environ (load_dotenv w)) c \<noteq> [] \<longrightarrow>
          v = PDict (env_confluence (environ (load_dotenv w)) c)"
    using env_top_Inr_D(1) [OF top] v by auto
  with ConfluenceConfig_validate_Inr [OF val] d c show ?thesis
    by (auto simp: required_str_Inr)
qed

lemma load_env_fields:
  assumes "load w self = (Inr cfg, w', self')"
  shows "get_env (environ (load_dotenv w)) ''CONFLUENCE_URL'' = Some v
           \<Longrightarrow> url (confluence cfg) = v"
    and "get_env (environ (load_dotenv w)) ''CONFLUENCE_API_TOKEN'' = Some v
           \<Longrightarrow> api_token (confluence cfg) = v"
    and "get_env (environ (load_dotenv w)) ''CONFLUENCE_SPACE_KEY'' = Some v
           \<Longrightarrow> space_key (confluence cfg) = v"
    and "get_env (environ (load_dotenv w)) ''CONFLUENCE_USERNAME'' = Some v
           \<Longrightarrow> username (confluence cfg) = Some v"
    and "get_env (environ (load_dotenv w)) ''LOCAL_PATH'' = Some v
           \<Longrightarrow> local_path cfg = Path v"
    and "get_env (environ (load_dotenv w)) ''IGNORE_PATTERNS'' = Some v
           \<Longrightarrow> parse_ignore_patterns v = Inr (ignore_patterns cfg)"
proof -
  from load_env_confluence [OF assms] obtain d c where
    conf: "env_confluence (environ (load_dotenv w)) c \<noteq> [] \<longrightarrow>
              dict_get (env_confluence (environ (load_dotenv w)) c) (PStr ''url'')
                = Some (PStr (url (confluence cfg))) \<and>
              dict_get (env_confluence (environ (load_dotenv w)) c) (PStr ''api_token'')
                = Some (PStr (api_token (confluence cfg))) \<and>
              dict_get (env_confluence (environ (load_dotenv w)) c) (PStr ''space_key'')
                = Some (PStr (space_key (confluence cfg))) \<and>
              optional_str [LocKey ''confluence''] (env_confluence (environ (load_dotenv w)) c)
                ''username'' = Inr (username (confluence cfg))"
    by auto
  show "get_env (environ (load_dotenv w)) ''CONFLUENCE_URL'' = Some v
           \<Longrightarrow> url (confluence cfg) = v"
    using conf by (auto simp: env_confluence_empty env_confluence_get)
  show "get_env (environ (load_dotenv w)) ''CONFLUENCE_API_TOKEN'' = Some v
           \<Longrightarrow> api_token (confluence cfg) = v"
    using conf by (auto simp: env_confluence_empty env_confluence_get)
  show "get_env (environ (load_dotenv w)) ''CONFLUENCE_SPACE_KEY'' = Some v
           \<Longrightarrow> space_key (confluence cfg) = v"
    using conf by (auto simp: env_confluence_empty env_confluence_get)
  show "get_env (environ (load_dotenv w)) ''CONFLUENCE_USERNAME'' = Some v
           \<Longrightarrow> username (confluence cfg) = Some v"
    using conf
    by (cases "username (confluence cfg)")
       (auto simp: env_confluence_empty env_confluence_get optional_str_Inr)
  from load_Inr_D [OF assms] obtain d out where
    out: "overlay_env (environ (load_dotenv w)) d = Inr out" and
    init: "SyncConfig_init out = Inr cfg"
    by blast
  from overlay_env_Inr_D [OF out] obtain c where
    top: "env_top (environ (load_dotenv w)) d (env_confluence (environ (load_dotenv w)) c) = Inr out"
    by blast
  show "get_env (environ (load_dotenv w)) ''LOCAL_PATH'' = Some v \<Longrightarrow> local_path cfg = Path v"
    using env_top_Inr_D(2) [OF top] SyncConfig_init_Inr(2) [OF init] by auto
  show "get_env (environ (load_dotenv w)) ''IGNORE_PATTERNS'' = Some v
           \<Longrightarrow> parse_ignore_patterns v = Inr (ignore_patterns cfg)"
    using env_top_Inr_D(3) [OF top] SyncConfig_init_Inr(3) [OF init] by auto
qed

lemma get_env_process:
  "environ w n = Some raw \<Longrightarrow> strip raw \<noteq> [] \<Longrightarrow>
     get_env (environ (load_dotenv w)) n = Some (strip raw)"
  by (simp add: get_env_def environ_load_dotenv)

subsection \<open>The template as it is read back\<close>

lemma yaml_dump_template:
  "yaml_dump template =
     PDict
       [(PStr ''confluence'',
           PDict
             [(PStr ''api_token'', PStr ''your-api-token''),
              (PStr ''space_key'', PStr ''YOUR_SPACE_KEY''),
              (PStr ''url'', PStr ''https://your-domain.atlassian.net'')]),
        (PStr ''ignore_patterns'', PList [PStr ''*.tmp'', PStr ''.git/*'']),
        (PStr ''local_path'', PStr ''docs'')]"
  by (simp add: template_def sort_items_def)

lemma load_dotenv_save_template:
  "load_dotenv (save_template w self) = save_template (load_dotenv w) self"
  by (simp add: load_dotenv_def save_template_def split: option.splits)

lemma environ_save_template [simp]: "environ (save_template w self) = environ w"
  by (simp add: save_template_def)

lemma files_save_template [simp]:
  "files (save_template w self) (config_path self) = Some (Yaml (yaml_dump template))"
  by (simp add: save_template_def)

subsection \<open>What a failed validation tells\<close>

lemma required_str_Inl:
  "\<not> (\<exists>s. dict_get d (PStr name) = Some (PStr s)) \<Longrightarrow>
     required_str loc d name =
       Inl [(loc @ [LocKey name],
             if dict_get d (PStr name) = None then ''missing'' else ''string_type'')]"
  by (auto simp: required_str_def split: option.splits pyval.splits)

lemma ConfluenceConfig_validate_errors:
  "set (errors_of (required_str loc d ''url'')) \<union>
   set (errors_of (required_str loc d ''api_token'')) \<union>
   set (errors_of (required_str loc d ''space_key''))
     \<subseteq> set (errors_of (ConfluenceConfig_validate loc (PDict d)))"
  unfolding ConfluenceConfig_validate_def Let_def
  by (auto simp: errors_of_def split: sum.splits)

lemma ConfluenceConfig_validate_Inl:
  "required_str loc d ''url'' = Inl e \<or> required_str loc d ''api_token'' = Inl e \<or>
   required_str loc d ''space_key'' = Inl e \<Longrightarrow>
     \<exists>es. ConfluenceConfig_validate loc (PDict d) = Inl es"
  unfolding ConfluenceConfig_validate_def Let_def
  by (auto split: sum.splits)

lemma SyncConfig_init_errors:
  assumes "list_all (\<lambda>(k, v). isinstance_str k) kwargs"
    and "dict_get kwargs (PStr ''confluence'') = Some v"
    and "ConfluenceConfig_validate [LocKey ''confluence''] v = Inl es"
  shows "\<exists>errs. SyncConfig_init kwargs = Inl (ValidationError errs) \<and> set es \<subseteq> set errs"
  using assms unfolding SyncConfig_init_def Let_def
  by (auto simp: errors_of_def split: sum.splits option.splits pyval.splits)

lemma load_fst:
  "fst (load w self) =
     and_then (merged_config_data (load_dotenv w) (config_path self)) SyncConfig_init"
  by (simp add: load_def Let_def split: sum.splits)

lemma load_config_data_non_mapping:
  assumes "files w p = Some (Yaml v)" and "\<not> isinstance_dict v"
  shows "load_config_data w p =
           (if truthy v
            then Inl (ValueError (''Config file must contain a YAML mapping/object: '' @ path_str p))
            else Inr [])"
  using assms by (cases v) (simp_all add: load_config_data_def)

lemma SyncConfig_init_Inl_errors:
  "SyncConfig_init kwargs = Inl (ValidationError errs) \<Longrightarrow>
     list_all (\<lambda>(k, v). isinstance_str k) kwargs \<and>
     set (errors_of
       (case dict_get kwargs (PStr ''confluence'') of
          None \<Rightarrow> Inl [([LocKey ''confluence''], ''missing'')]
        | Some v \<Rightarrow> ConfluenceConfig_validate [LocKey ''confluence''] v)) \<subseteq> set errs"
  unfolding SyncConfig_init_def Let_def
  by (auto simp: errors_of_def split: if_splits sum.splits)

lemma SyncConfig_init_str_keys:
  "list_all (\<lambda>(k, v). isinstance_str k) kwargs \<Longrightarrow>
     (\<exists>cfg. SyncConfig_init kwargs = Inr cfg) \<or>
     (\<exists>errs. SyncConfig_init kwargs = Inl (ValidationError errs))"
  unfolding SyncConfig_init_def Let_def
  by (auto split: sum.splits)

lemma ConfluenceConfig_validate_non_dict:
  "\<not> isinstance_dict v \<Longrightarrow> ConfluenceConfig_validate loc v = Inl [(loc, ''model_type'')]"
  by (cases v) (simp_all add: ConfluenceConfig_validate_def)

lemma ConfluenceConfig_validate_missing_token:
  assumes "dict_get c (PStr ''api_token'') = None"
  shows "(loc @ [LocKey ''api_token''], ''missing'')
           \<in> set (errors_of (ConfluenceConfig_validate loc (PDict c)))"
proof -
  from assms have "required_str loc c ''api_token'' = Inl [(loc @ [LocKey ''api_token''], ''missing'')]"
    by (simp add: required_str_def)
  with ConfluenceConfig_validate_errors [of loc c] show ?thesis
    by (auto simp: errors_of_def)
qed

lemma merged_confluence_token:
  assumes out: "overlay_env env d = Inr m"
    and tok: "get_env env ''CONFLUENCE_API_TOKEN'' = None"
    and absent: "\<forall>c. py_dict (py_or (get d ''confluence'') (PDict [])) = Inr (PDict c) \<longrightarrow>
                 dict_get c (PStr ''api_token'') = None"
    and cc: "dict_get m (PStr ''confluence'') = Some (PDict cc)"
  shows "dict_get cc (PStr ''api_token'') = None"
proof -
  from overlay_env_Inr_D [OF out] obtain c where
    c: "py_dict (py_or (get d ''confluence'') (PDict [])) = Inr (PDict c)" and
    top: "env_top env d (env_confluence env c) = Inr m"
    by blast
  from absent c have c_tok: "dict_get c (PStr ''api_token'') = None"
    by blast
  show ?thesis
  proof (cases "env_confluence env c = []")
    case False
    with env_top_Inr_D(1) [OF top] cc have "cc = env_confluence env c"
      by simp
    with env_confluence_get(2) [of env c] tok c_tok show ?thesis
      by simp
  next
    case True
    then have "c = []"
      by (simp add: env_confluence_empty)
    from True env_top_Inr_D(1) [OF top] cc have d: "dict_get d (PStr ''confluence'') = Some (PDict cc)"
      by simp
    have "cc = []"
    proof (rule ccontr)
      assume "cc \<noteq> []"
      with d have "py_or (get d ''confluence'') (PDict []) = PDict cc"
        by (simp add: get_def py_or_def)
      with c have "c = cc"
        by (simp add: py_dict_def)
      with \<open>c = []\<close> \<open>cc \<noteq> []\<close> show False by simp
    qed
    then show ?thesis by simp
  qed
qed

lemma load_config_data_Inl:
  "load_config_data w p = Inl e \<Longrightarrow> e = YAMLError \<or> (\<exists>msg. e = ValueError msg)"
  unfolding load_config_data_def
  by (auto split: option.splits content.splits if_splits pyval.splits)

lemma overlay_env_Inl_D:
  assumes "overlay_env env d = Inl e"
  shows "e = TypeError \<or> e = JSONDecodeError \<or> (\<exists>msg. e = ValueError msg)"
proof (cases "py_dict (py_or (get d ''confluence'') (PDict []))")
  case (Inl e')
  from py_dict_Inl [OF Inl] overlay_env_Inl [OF Inl, of env] assms show ?thesis
    by auto
next
  case (Inr v)
  with py_dict_Inr [OF Inr] obtain c where
    c: "py_dict (py_or (get d ''confluence'') (PDict [])) = Inr (PDict c)"
    by auto
  from overlay_env_Inr [OF c, of env] assms
  have "env_top env d (env_confluence env c) = Inl e"
    by simp
  from env_top_Inl [OF this] show ?thesis by auto
qed

lemma merged_config_data_Inl:
  "merged_config_data w p = Inl e \<Longrightarrow>
     e = TypeError \<or> e = JSONDecodeError \<or> e = YAMLError \<or> (\<exists>msg. e = ValueError msg)"
  unfolding merged_config_data_def and_then_def
  by (auto split: sum.splits dest: load_config_data_Inl overlay_env_Inl_D)

lemma merged_config_data_Inr_D:
  "merged_config_data w p = Inr m \<Longrightarrow>
     \<exists>d. load_config_data w p = Inr d \<and> overlay_env (environ w) d = Inr m"
  by (auto simp: merged_config_data_def and_then_def split: sum.splits)

lemma load_non_mapping:
  assumes "files w (config_path self) = Some (Yaml v)" and "\<not> isinstance_dict v"
  shows "fst (load w self) =
           (if truthy v
            then Inl (ValueError (''Config file must contain a YAML mapping/object: ''
                        @ path_str (config_path self)))
            else fst (load (w\<lparr>files := (files w)(config_path self := None)\<rparr>) self))"
proof -
  let ?w' = "w\<lparr>files := (files w)(config_path self := None)\<rparr>"
  have data: "load_config_data (load_dotenv w) (config_path self) =
           (if truthy v
            then Inl (ValueError (''Config file must contain a YAML mapping/object: ''
                        @ path_str (config_path self)))
            else Inr [])"
    using load_config_data_non_mapping [of "load_dotenv w" "config_path self" v] assms by simp
  have none: "load_config_data (load_dotenv ?w') (config_path self) = Inr []"
    by (simp add: load_config_data_def)
  have env: "environ (load_dotenv ?w') = environ (load_dotenv w)"
    by (simp add: load_dotenv_def split: option.splits)
  show ?thesis
    by (simp add: load_fst merged_config_data_def data none env and_then_def)
qed

section \<open>Properties of the loader\<close>

text \<open>
  C8: \<^verbatim>\<open>load\<close> is atomic with respect to the cached settings.  Whatever the cache held
  before the call: if \<^verbatim>\<open>load\<close> returns settings, they are the validated merge of file and
  environment and the cache holds them (nothing else of the object changes); if it
  raises, the object is exactly what it was.
\<close>

theorem load_atomic:
  "load w self = (r, w', self') \<Longrightarrow>
     r = and_then (merged_config_data (load_dotenv w) (config_path self)) SyncConfig_init \<and>
     (\<forall>cfg. r = Inr cfg \<longrightarrow> self' = self\<lparr>priv_config := Some cfg\<rparr>) \<and>
     (\<forall>e. r = Inl e \<longrightarrow> self' = self)"
  by (auto simp: load_def Let_def split: sum.splits)


theorem load_atomic_witness:
  "load \<lparr>environ = Map.empty, files = Map.empty, dotenv = None\<rparr>
        \<lparr>config_path = Path ''confluence-sync.yml'',
         priv_config = Some \<lparr>confluence = \<lparr>url = ''u'', api_token = ''t'', space_key = ''k'',
                                              username = None\<rparr>,
                              local_path = Path ''docs'', ignore_patterns = []\<rparr>\<rparr>
     = (Inl (ValidationError [([LocKey ''confluence''], ''missing'')]),
        \<lparr>environ = Map.empty, files = Map.empty, dotenv = None\<rparr>,
        \<lparr>config_path = Path ''confluence-sync.yml'',
         priv_config = Some \<lparr>confluence = \<lparr>url = ''u'', api_token = ''t'', space_key = ''k'',
                                              username = None\<rparr>,
                              local_path = Path ''docs'', ignore_patterns = []\<rparr>\<rparr>)"
proof -
  obtain r w' self' where h:
    "load \<lparr>environ = Map.empty, files = Map.empty, dotenv = None\<rparr>
        \<lparr>config_path = Path ''confluence-sync.yml'',
         priv_config = Some \<lparr>confluence = \<lparr>url = ''u'', api_token = ''t'', space_key = ''k'',
                                              username = None\<rparr>,
                              local_path = Path ''docs'', ignore_patterns = []\<rparr>\<rparr>
      = (r, w', self')"
    by (cases "load \<lparr>environ = Map.empty, files = Map.empty, dotenv = None\<rparr>
        \<lparr>config_path = Path ''confluence-sync.yml'',
         priv_config = Some \<lparr>confluence = \<lparr>url = ''u'', api_token = ''t'', space_key = ''k'',
                                              username = None\<rparr>,
                              local_path = Path ''docs'', ignore_patterns = []\<rparr>\<rparr>") auto
  have r: "r = Inl (ValidationError [([LocKey ''confluence''], ''missing'')])"
    using load_atomic [OF h] by (simp add: load_defs)
  have w': "w' = \<lparr>environ = Map.empty, files = Map.empty, dotenv = None\<rparr>"
    using h by (simp add: load_def load_dotenv_def Let_def split: sum.splits)
  from load_atomic [OF h] r w' h show ?thesis by simp
qed

text \<open>
  C10: the check of line 59 can never fire.  Whenever \<^verbatim>\<open>dict(...)\<close> on line 58 returns,
  what it returns is a dict, so \<^verbatim>\<open>_overlay_env\<close> never raises the \<^verbatim>\<open>ValueError\<close> of
  line 60, whatever the environment and the mapping it is given.
\<close>

theorem confluence_check_unreachable:
  "(\<forall>x c. py_dict x = Inr c \<longrightarrow> isinstance_dict c) \<and>
   (\<forall>env d. overlay_env env d \<noteq>
      Inl (ValueError ''Invalid config: 'confluence' must be a mapping/object''))"
proof (intro conjI allI impI)
  fix x c
  assume "py_dict x = Inr c"
  from py_dict_Inr [OF this] show "isinstance_dict c" by auto
next
  fix env d
  show "overlay_env env d \<noteq> Inl (ValueError ''Invalid config: 'confluence' must be a mapping/object'')"
  proof (cases "py_dict (py_or (get d ''confluence'') (PDict []))")
    case (Inl e)
    from py_dict_Inl [OF Inl] overlay_env_Inl [OF Inl, of env] show ?thesis
      by (auto simp: length_message_neq [THEN not_sym])
  next
    case (Inr v)
    with py_dict_Inr [OF Inr] obtain c where
      c: "py_dict (py_or (get d ''confluence'') (PDict [])) = Inr (PDict c)"
      by auto
    show ?thesis
    proof
      assume "overlay_env env d = Inl (ValueError ''Invalid config: 'confluence' must be a mapping/object'')"
      with overlay_env_Inr [OF c, of env]
      have "env_top env d (env_confluence env c) =
              Inl (ValueError ''Invalid config: 'confluence' must be a mapping/object'')"
        by simp
      from env_top_Inl [OF this] show False by simp
    qed
  qed
qed

theorem confluence_check_unreachable_witness:
  "py_dict (PList [PStr ''ab'']) = Inr (PDict [(PStr ''a'', PStr ''b'')]) \<and>
   isinstance_dict (PDict [(PStr ''a'', PStr ''b'')]) \<and>
   overlay_env Map.empty [(PStr ''confluence'', PInt 7)] = Inl TypeError"
proof -
  have h: "py_dict (PList [PStr ''ab'']) = Inr (PDict [(PStr ''a'', PStr ''b'')])"
    by (simp add: py_dict_def is_continuation_def)
  have "overlay_env Map.empty [(PStr ''confluence'', PInt 7)] = Inl TypeError"
    by (simp add: load_defs)
  with h confluence_check_unreachable show ?thesis by auto
qed

text \<open>
  C6: how \<^verbatim>\<open>_parse_ignore_patterns\<close> reads its argument.  If the trimmed text starts with
  \<^verbatim>\<open>[\<close> it is decoded as JSON, and only a JSON array of strings gives a result; any other
  text is split at its commas.  Either way each entry is trimmed and the entries that are
  empty after trimming are dropped, so every entry of a result is non-empty and has no
  white space at its ends.  Both spellings of the example give the same two patterns.
\<close>

theorem parse_ignore_patterns_forms:
  \<open>(startswith (strip v) ''['' \<longrightarrow> json_loads (strip v) = Inr (JArray (map JString ss)) \<longrightarrow>
      parse_ignore_patterns v = Inr (map strip (filter (\<lambda>x. strip x \<noteq> []) ss))) \<and>
   (startswith (strip v) ''['' \<longrightarrow> parse_ignore_patterns v = Inr ps \<longrightarrow>
      (\<exists>ss. json_loads (strip v) = Inr (JArray (map JString ss)))) \<and>
   (\<not> startswith (strip v) ''['' \<longrightarrow>
      parse_ignore_patterns v =
        Inr (map strip (filter (\<lambda>p. strip p \<noteq> []) (split (CHR '','') (strip v))))) \<and>
   (parse_ignore_patterns v = Inr ps \<longrightarrow> (\<forall>p \<in> set ps. p \<noteq> [] \<and> strip p = p)) \<and>
   parse_ignore_patterns ''*.tmp,*.log'' = Inr [''*.tmp'', ''*.log''] \<and>
   parse_ignore_patterns ''["*.tmp", "*.log"]'' = Inr [''*.tmp'', ''*.log'']\<close>
  using parse_ignore_patterns_json [of v ss] parse_ignore_patterns_json_only [of v ps]
    parse_ignore_patterns_commas [of v] parse_ignore_patterns_entries [of v ps]
    parse_example_commas parse_example_json
  by blast

theorem parse_ignore_patterns_forms_witness:
  \<open>parse_ignore_patterns ''[" x ", "", "y"]'' = Inr [''x'', ''y''] \<and>
   parse_ignore_patterns '' a, ,b '' = Inr [''a'', ''b''] \<and>
   strip ''x'' = ''x'' \<and> strip ''b'' = ''b''\<close>
proof -
  have s1: \<open>strip ''[" x ", "", "y"]'' = ''[" x ", "", "y"]''\<close>
    by (simp add: strip_defs)
  have j1: \<open>json_loads ''[" x ", "", "y"]'' = Inr (JArray (map JString ['' x '', '''', ''y'']))\<close>
    by (simp add: json_loads_def lex.simps scanstring.simps prepend_def number_len_def)
  have e1: "strip '' x '' = ''x''" "strip ''y'' = ''y''"
    by (simp_all add: strip_defs)
  have p1: \<open>parse_ignore_patterns ''[" x ", "", "y"]'' = Inr [''x'', ''y'']\<close>
    using parse_ignore_patterns_forms [of \<open>''[" x ", "", "y"]''\<close> "['' x '', '''', ''y'']"]
    by (simp add: s1 j1 e1 startswith_def)
  have s2: "strip '' a, ,b '' = ''a, ,b''"
    by (simp add: strip_defs)
  have e2: "strip ''a'' = ''a''" "strip '' '' = []" "strip ''b'' = ''b''"
    by (simp_all add: strip_defs)
  have p2: "parse_ignore_patterns '' a, ,b '' = Inr [''a'', ''b'']"
    using parse_ignore_patterns_forms [of "'' a, ,b ''"]
    by (simp add: s2 e2 startswith_def)
  from parse_ignore_patterns_forms [of \<open>''[" x ", "", "y"]''\<close> _ "[''x'', ''y'']"] p1
  have "strip ''x'' = ''x''" by simp
  with p1 p2 e2 show ?thesis by simp
qed

text \<open>
  C4: a variable of the process wins over the file.  Whatever the file holds, if
  \<^verbatim>\<open>load\<close> returns settings and one of the six variables is set to a value that is not
  empty after trimming, the field of the settings is the value of the variable (trimmed):
  the string itself for \<^verbatim>\<open>url\<close>, \<^verbatim>\<open>api_token\<close>, \<^verbatim>\<open>space_key\<close> and \<^verbatim>\<open>username\<close>,
  the path built from it for \<^verbatim>\<open>local_path\<close>, and the list parsed from it for
  \<^verbatim>\<open>ignore_patterns\<close>.
\<close>

theorem env_overrides_file:
  assumes "load w self = (Inr cfg, w', self')"
  shows
    "(\<forall>raw. environ w ''CONFLUENCE_URL'' = Some raw \<and> strip raw \<noteq> [] \<longrightarrow>
        url (confluence cfg) = strip raw) \<and>
     (\<forall>raw. environ w ''CONFLUENCE_API_TOKEN'' = Some raw \<and> strip raw \<noteq> [] \<longrightarrow>
        api_token (confluence cfg) = strip raw) \<and>
     (\<forall>raw. environ w ''CONFLUENCE_SPACE_KEY'' = Some raw \<and> strip raw \<noteq> [] \<longrightarrow>
        space_key (confluence cfg) = strip raw) \<and>
     (\<forall>raw. environ w ''CONFLUENCE_USERNAME'' = Some raw \<and> strip raw \<noteq> [] \<longrightarrow>
        username (confluence cfg) = Some (strip raw)) \<and>
     (\<forall>raw. environ w ''LOCAL_PATH'' = Some raw \<and> strip raw \<noteq> [] \<longrightarrow>
        local_path cfg = Path (strip raw)) \<and>
     (\<forall>raw. environ w ''IGNORE_PATTERNS'' = Some raw \<and> strip raw \<noteq> [] \<longrightarrow>
        parse_ignore_patterns (strip raw) = Inr (ignore_patterns cfg))"
  using load_env_fields [OF assms] get_env_process [of w]
  by blast

theorem env_overrides_file_witness:
  "fst (load
     \<lparr>environ = [''CONFLUENCE_URL'' \<mapsto> ''b''],
      files = [Path ''confluence-sync.yml'' \<mapsto>
        Yaml (PDict [(PStr ''confluence'',
                PDict [(PStr ''url'', PStr ''a''), (PStr ''api_token'', PStr ''t''),
                       (PStr ''space_key'', PStr ''k'')])])],
      dotenv = None\<rparr>
     (Config_init None))
   = Inr \<lparr>confluence = \<lparr>url = ''b'', api_token = ''t'', space_key = ''k'', username = None\<rparr>,
          local_path = Path ''docs'', ignore_patterns = []\<rparr> \<and>
   strip ''b'' = ''b''"
proof -
  let ?w = "\<lparr>environ = [''CONFLUENCE_URL'' \<mapsto> ''b''],
      files = [Path ''confluence-sync.yml'' \<mapsto>
        Yaml (PDict [(PStr ''confluence'',
                PDict [(PStr ''url'', PStr ''a''), (PStr ''api_token'', PStr ''t''),
                       (PStr ''space_key'', PStr ''k'')])])],
      dotenv = None\<rparr>"
  have b: "strip ''b'' = ''b''"
    by (simp add: strip_defs)
  obtain cfg w' self' where h: "load ?w (Config_init None) = (Inr cfg, w', self')"
    by (simp add: load_defs Config_init_def b)
  have "environ ?w ''CONFLUENCE_URL'' = Some ''b''"
    by simp
  with env_overrides_file [OF h] b have url: "url (confluence cfg) = ''b''"
    by simp
  have "cfg = \<lparr>confluence = \<lparr>url = url (confluence cfg), api_token = ''t'', space_key = ''k'',
                               username = None\<rparr>,
               local_path = Path ''docs'', ignore_patterns = []\<rparr>"
    using h by (auto simp: load_defs Config_init_def b)
  with url h b show ?thesis by simp
qed

text \<open>
  C5: a variable that is empty, or white space only, counts as not set.  For each of the
  six names, \<^verbatim>\<open>_overlay_env\<close> returns what it returns without the variable, so the value of
  the file (or the default) stays; and \<^verbatim>\<open>load\<close> gives the result, and leaves the object
  in the state, that it gives in the world where nothing sets the variable.
\<close>

theorem blank_env_is_unset:
  assumes "n \<in> set env_names" and "environ w n = Some raw" and "strip raw = []"
  shows "overlay_env (environ w) d = overlay_env ((environ w)(n := None)) d \<and>
         fst (load w self) = fst (load (unset n w) self) \<and>
         snd (snd (load w self)) = snd (snd (load (unset n w) self))"
proof -
  have "\<forall>m \<in> set env_names. get_env (environ w) m = get_env ((environ w)(n := None)) m"
    using assms by (simp add: get_env_def)
  then have overlay: "overlay_env (environ w) d = overlay_env ((environ w)(n := None)) d"
    by (rule overlay_env_cong)
  have "\<forall>m \<in> set env_names.
          get_env (environ (load_dotenv w)) m = get_env (environ (load_dotenv (unset n w))) m"
    using assms
    by (auto simp: get_env_def environ_load_dotenv unset_def split: option.splits)
  moreover have "files w = files (unset n w)"
    by (simp add: unset_def)
  ultimately show ?thesis
    using load_cong [of w "unset n w" self] overlay by blast
qed

theorem blank_env_is_unset_witness:
  "fst (load
     \<lparr>environ = [''CONFLUENCE_URL'' \<mapsto> ''   ''],
      files = [Path ''confluence-sync.yml'' \<mapsto>
        Yaml (PDict [(PStr ''confluence'',
                PDict [(PStr ''url'', PStr ''a''), (PStr ''api_token'', PStr ''t''),
                       (PStr ''space_key'', PStr ''k'')])])],
      dotenv = None\<rparr>
     (Config_init None))
   = Inr \<lparr>confluence = \<lparr>url = ''a'', api_token = ''t'', space_key = ''k'', username = None\<rparr>,
          local_path = Path ''docs'', ignore_patterns = []\<rparr> \<and>
   fst (load (unset ''CONFLUENCE_URL''
     \<lparr>environ = [''CONFLUENCE_URL'' \<mapsto> ''   ''],
      files = [Path ''confluence-sync.yml'' \<mapsto>
        Yaml (PDict [(PStr ''confluence'',
                PDict [(PStr ''url'', PStr ''a''), (PStr ''api_token'', PStr ''t''),
                       (PStr ''space_key'', PStr ''k'')])])],
      dotenv = None\<rparr>)
     (Config_init None))
   = Inr \<lparr>confluence = \<lparr>url = ''a'', api_token = ''t'', space_key = ''k'', username = None\<rparr>,
          local_path = Path ''docs'', ignore_patterns = []\<rparr>"
proof -
  let ?w = "\<lparr>environ = [''CONFLUENCE_URL'' \<mapsto> ''   ''],
      files = [Path ''confluence-sync.yml'' \<mapsto>
        Yaml (PDict [(PStr ''confluence'',
                PDict [(PStr ''url'', PStr ''a''), (PStr ''api_token'', PStr ''t''),
                       (PStr ''space_key'', PStr ''k'')])])],
      dotenv = None\<rparr>"
  have blank: "strip ''   '' = []"
    by (simp add: strip_defs)
  have n: "''CONFLUENCE_URL'' \<in> set env_names"
    by (simp add: env_names_def)
  have e: "environ ?w ''CONFLUENCE_URL'' = Some ''   ''"
    by simp
  have l: "fst (load ?w (Config_init None))
      = Inr \<lparr>confluence = \<lparr>url = ''a'', api_token = ''t'', space_key = ''k'', username = None\<rparr>,
          local_path = Path ''docs'', ignore_patterns = []\<rparr>"
    by (simp add: load_defs Config_init_def blank)
  from blank_env_is_unset [OF n e blank, of "[]" "Config_init None"] l show ?thesis
    by simp
qed

text \<open>
  C9: what is stored is the trimmed value.  If one of the six variables is set to a value
  that is not empty after trimming, \<^verbatim>\<open>load\<close> gives the result it gives when the variable
  is set to the trimmed value itself, which has no white space left at its ends; the
  settings hold the trimmed string (for \<^verbatim>\<open>local_path\<close> the path built from it, for
  \<^verbatim>\<open>ignore_patterns\<close> the list parsed from it).
\<close>

theorem env_value_is_trimmed:
  assumes "n \<in> set env_names" and "environ w n = Some raw" and "strip raw \<noteq> []"
  shows "fst (load w self) = fst (load (w\<lparr>environ := (environ w)(n \<mapsto> strip raw)\<rparr>) self) \<and>
         get_env (environ w) n = Some (strip raw) \<and>
         strip (strip raw) = strip raw \<and>
         (\<forall>cfg. fst (load w self) = Inr cfg \<longrightarrow>
            (n = ''CONFLUENCE_URL'' \<longrightarrow> url (confluence cfg) = strip raw) \<and>
            (n = ''CONFLUENCE_API_TOKEN'' \<longrightarrow> api_token (confluence cfg) = strip raw) \<and>
            (n = ''CONFLUENCE_SPACE_KEY'' \<longrightarrow> space_key (confluence cfg) = strip raw) \<and>
            (n = ''CONFLUENCE_USERNAME'' \<longrightarrow> username (confluence cfg) = Some (strip raw)) \<and>
            (n = ''LOCAL_PATH'' \<longrightarrow> local_path cfg = Path (strip raw)) \<and>
            (n = ''IGNORE_PATTERNS'' \<longrightarrow>
               parse_ignore_patterns (strip raw) = Inr (ignore_patterns cfg)))"
proof -
  let ?w = "w\<lparr>environ := (environ w)(n \<mapsto> strip raw)\<rparr>"
  have "\<forall>m \<in> set env_names.
          get_env (environ (load_dotenv w)) m = get_env (environ (load_dotenv ?w)) m"
    using assms
    by (auto simp: get_env_def environ_load_dotenv strip_idem split: option.splits)
  moreover have "files w = files ?w"
    by simp
  ultimately have same: "fst (load w self) = fst (load ?w self)"
    using load_cong [of w ?w self] by blast
  have env: "get_env (environ (load_dotenv w)) n = Some (strip raw)"
    using assms by (simp add: get_env_process)
  have fields: "(n = ''CONFLUENCE_URL'' \<longrightarrow> url (confluence cfg) = strip raw) \<and>
            (n = ''CONFLUENCE_API_TOKEN'' \<longrightarrow> api_token (confluence cfg) = strip raw) \<and>
            (n = ''CONFLUENCE_SPACE_KEY'' \<longrightarrow> space_key (confluence cfg) = strip raw) \<and>
            (n = ''CONFLUENCE_USERNAME'' \<longrightarrow> username (confluence cfg) = Some (strip raw)) \<and>
            (n = ''LOCAL_PATH'' \<longrightarrow> local_path cfg = Path (strip raw)) \<and>
            (n = ''IGNORE_PATTERNS'' \<longrightarrow>
               parse_ignore_patterns (strip raw) = Inr (ignore_patterns cfg))"
    if "fst (load w self) = Inr cfg" for cfg
  proof -
    from that obtain w' self' where "load w self = (Inr cfg, w', self')"
      by (cases "load w self") auto
    from load_env_fields [OF this] env show ?thesis by blast
  qed
  have "get_env (environ w) n = Some (strip raw)"
    using assms by (simp add: get_env_def)
  with same fields show ?thesis
    using strip_idem [of raw] by blast
qed

theorem env_value_is_trimmed_witness:
  "fst (load
     \<lparr>environ = [''CONFLUENCE_URL'' \<mapsto> ''  b  ''],
      files = [Path ''confluence-sync.yml'' \<mapsto>
        Yaml (PDict [(PStr ''confluence'',
                PDict [(PStr ''url'', PStr ''a''), (PStr ''api_token'', PStr ''t''),
                       (PStr ''space_key'', PStr ''k'')])])],
      dotenv = None\<rparr>
     (Config_init None))
   = Inr \<lparr>confluence = \<lparr>url = ''b'', api_token = ''t'', space_key = ''k'', username = None\<rparr>,
          local_path = Path ''docs'', ignore_patterns = []\<rparr> \<and>
   strip ''  b  '' = ''b''"
proof -
  let ?w = "\<lparr>environ = [''CONFLUENCE_URL'' \<mapsto> ''  b  ''],
      files = [Path ''confluence-sync.yml'' \<mapsto>
        Yaml (PDict [(PStr ''confluence'',
                PDict [(PStr ''url'', PStr ''a''), (PStr ''api_token'', PStr ''t''),
                       (PStr ''space_key'', PStr ''k'')])])],
      dotenv = None\<rparr>"
  have b: "strip ''  b  '' = ''b''"
    by (simp add: strip_defs)
  have n: "''CONFLUENCE_URL'' \<in> set env_names"
    by (simp add: env_names_def)
  have e: "environ ?w ''CONFLUENCE_URL'' = Some ''  b  ''"
    by simp
  have ne: "strip ''  b  '' \<noteq> []"
    by (simp add: b)
  obtain cfg where cfg: "fst (load ?w (Config_init None)) = Inr cfg"
    by (simp add: load_defs Config_init_def b)
  with env_value_is_trimmed [OF n e ne, of "Config_init None"] b
  have url: "url (confluence cfg) = ''b''"
    by simp
  have "cfg = \<lparr>confluence = \<lparr>url = url (confluence cfg), api_token = ''t'', space_key = ''k'',
                               username = None\<rparr>,
               local_path = Path ''docs'', ignore_patterns = []\<rparr>"
    using cfg by (auto simp: load_defs Config_init_def b)
  with url cfg b show ?thesis by simp
qed

text \<open>
  C1 (as the code has it): the placeholders of the template are ordinary non-empty
  strings, and nothing in the validation tells them from real credentials.  After
  \<^verbatim>\<open>save_template\<close>, with none of the six variables set (or all of them blank),
  \<^verbatim>\<open>load\<close> succeeds, and the settings hold exactly the values of the template.
\<close>

theorem template_load_succeeds:
  assumes "\<forall>n \<in> set env_names. get_env (environ (load_dotenv w)) n = None"
  shows "fst (load (save_template w self) self) =
           Inr \<lparr>confluence =
                  \<lparr>url = ''https://your-domain.atlassian.net'', api_token = ''your-api-token'',
                   space_key = ''YOUR_SPACE_KEY'', username = None\<rparr>,
                local_path = Path ''docs'', ignore_patterns = [''*.tmp'', ''.git/*'']\<rparr>"
proof -
  let ?env = "environ (load_dotenv w)"
  from assms have env:
    "get_env ?env ''CONFLUENCE_URL'' = None"
    "get_env ?env ''CONFLUENCE_API_TOKEN'' = None"
    "get_env ?env ''CONFLUENCE_SPACE_KEY'' = None"
    "get_env ?env ''CONFLUENCE_USERNAME'' = None"
    "get_env ?env ''LOCAL_PATH'' = None"
    "get_env ?env ''IGNORE_PATTERNS'' = None"
    by (simp_all add: env_names_def)
  have data: "load_config_data (save_template (load_dotenv w) self) (config_path self) =
          Inr [(PStr ''confluence'',
                 PDict
                   [(PStr ''api_token'', PStr ''your-api-token''),
                    (PStr ''space_key'', PStr ''YOUR_SPACE_KEY''),
                    (PStr ''url'', PStr ''https://your-domain.atlassian.net'')]),
               (PStr ''ignore_patterns'', PList [PStr ''*.tmp'', PStr ''.git/*'']),
               (PStr ''local_path'', PStr ''docs'')]"
    by (simp add: load_config_data_def yaml_dump_template)
  have merged: "merged_config_data (save_template (load_dotenv w) self) (config_path self) =
          Inr [(PStr ''confluence'',
                 PDict
                   [(PStr ''api_token'', PStr ''your-api-token''),
                    (PStr ''space_key'', PStr ''YOUR_SPACE_KEY''),
                    (PStr ''url'', PStr ''https://your-domain.atlassian.net'')]),
               (PStr ''ignore_patterns'', PList [PStr ''*.tmp'', PStr ''.git/*'']),
               (PStr ''local_path'', PStr ''docs'')]"
    unfolding merged_config_data_def data
    by (simp add: and_then_def overlay_env_def env get_def py_or_def py_dict_def assign_def)
  show ?thesis
    unfolding load_def load_dotenv_save_template Let_def merged
    by (simp add: and_then_def SyncConfig_init_def ConfluenceConfig_validate_def required_str_def
          optional_str_def)
qed

theorem template_load_succeeds_witness:
  "get_env Map.empty ''CONFLUENCE_API_TOKEN'' = None \<and>
   fst (load (save_template \<lparr>environ = Map.empty, files = Map.empty, dotenv = Some Map.empty\<rparr>
               (Config_init (Some (Path ''my.yml''))))
          (Config_init (Some (Path ''my.yml'')))) =
     Inr \<lparr>confluence =
            \<lparr>url = ''https://your-domain.atlassian.net'', api_token = ''your-api-token'',
             space_key = ''YOUR_SPACE_KEY'', username = None\<rparr>,
          local_path = Path ''docs'', ignore_patterns = [''*.tmp'', ''.git/*'']\<rparr>"
proof -
  have "\<forall>n \<in> set env_names.
          get_env (environ (load_dotenv \<lparr>environ = Map.empty, files = Map.empty,
                                          dotenv = Some Map.empty\<rparr>)) n = None"
    by (simp add: get_env_def load_dotenv_def)
  from template_load_succeeds [OF this] show ?thesis
    by (simp add: get_env_def)
qed

text \<open>
  The statement that this \<^verbatim>\<open>load\<close> fails does not hold: with an empty environment, no
  \<^verbatim>\<open>.env\<close> support and the default path, \<^verbatim>\<open>load\<close> after \<^verbatim>\<open>save_template\<close> returns
  the settings of the template.
\<close>

theorem template_load_counterexample:
  "fst (load (save_template \<lparr>environ = Map.empty, files = Map.empty, dotenv = None\<rparr>
               (Config_init None))
          (Config_init None)) =
     Inr \<lparr>confluence =
            \<lparr>url = ''https://your-domain.atlassian.net'', api_token = ''your-api-token'',
             space_key = ''YOUR_SPACE_KEY'', username = None\<rparr>,
          local_path = Path ''docs'', ignore_patterns = [''*.tmp'', ''.git/*'']\<rparr>"
  by (simp add: load_defs save_template_def Config_init_def yaml_dump_template)

text \<open>
  C2 (as the code has it): the required fields must be present, not non-empty.  If
  \<^verbatim>\<open>load\<close> returns settings, the merged mapping holds a \<^verbatim>\<open>confluence\<close> mapping in which
  \<^verbatim>\<open>url\<close>, \<^verbatim>\<open>api_token\<close> and \<^verbatim>\<open>space_key\<close> are strings, and the settings hold these
  strings.  If the merged mapping (its keys being strings) holds a \<^verbatim>\<open>confluence\<close> mapping
  in which one of the three is missing or is no string, \<^verbatim>\<open>load\<close> fails with a validation
  error that names the field.  The empty string is a string like any other.
\<close>

theorem required_fields_present:
  "(\<forall>cfg. fst (load w self) = Inr cfg \<longrightarrow>
      (\<exists>m c. merged_config_data (load_dotenv w) (config_path self) = Inr m \<and>
         dict_get m (PStr ''confluence'') = Some (PDict c) \<and>
         dict_get c (PStr ''url'') = Some (PStr (url (confluence cfg))) \<and>
         dict_get c (PStr ''api_token'') = Some (PStr (api_token (confluence cfg))) \<and>
         dict_get c (PStr ''space_key'') = Some (PStr (space_key (confluence cfg))))) \<and>
   (\<forall>m c k. merged_config_data (load_dotenv w) (config_path self) = Inr m \<and>
        list_all (\<lambda>(k, v). isinstance_str k) m \<and>
        dict_get m (PStr ''confluence'') = Some (PDict c) \<and>
        k \<in> {''url'', ''api_token'', ''space_key''} \<and>
        \<not> (\<exists>s. dict_get c (PStr k) = Some (PStr s)) \<longrightarrow>
      (\<exists>errs. fst (load w self) = Inl (ValidationError errs) \<and>
         ([LocKey ''confluence'', LocKey k],
          if dict_get c (PStr k) = None then ''missing'' else ''string_type'') \<in> set errs))"
proof (intro conjI allI impI)
  fix cfg
  assume "fst (load w self) = Inr cfg"
  then obtain m where m: "merged_config_data (load_dotenv w) (config_path self) = Inr m"
    and init: "SyncConfig_init m = Inr cfg"
    by (auto simp: load_fst and_then_def split: sum.splits)
  from SyncConfig_init_Inr(1) [OF init] obtain v where
    v: "dict_get m (PStr ''confluence'') = Some v" and
    val: "ConfluenceConfig_validate [LocKey ''confluence''] v = Inr (confluence cfg)"
    by blast
  from ConfluenceConfig_validate_Inr [OF val] m v
  show "\<exists>m c. merged_config_data (load_dotenv w) (config_path self) = Inr m \<and>
         dict_get m (PStr ''confluence'') = Some (PDict c) \<and>
         dict_get c (PStr ''url'') = Some (PStr (url (confluence cfg))) \<and>
         dict_get c (PStr ''api_token'') = Some (PStr (api_token (confluence cfg))) \<and>
         dict_get c (PStr ''space_key'') = Some (PStr (space_key (confluence cfg)))"
    by (auto simp: required_str_Inr)
next
  fix m c k
  assume a: "merged_config_data (load_dotenv w) (config_path self) = Inr m \<and>
        list_all (\<lambda>(k, v). isinstance_str k) m \<and>
        dict_get m (PStr ''confluence'') = Some (PDict c) \<and>
        k \<in> {''url'', ''api_token'', ''space_key''} \<and>
        \<not> (\<exists>s. dict_get c (PStr k) = Some (PStr s))"
  let ?e = "([LocKey ''confluence'', LocKey k],
          if dict_get c (PStr k) = None then ''missing'' else ''string_type'')"
  from a have req: "required_str [LocKey ''confluence''] c k = Inl [?e]"
    using required_str_Inl [of c k "[LocKey ''confluence'']"] by simp
  with a have "\<exists>es. ConfluenceConfig_validate [LocKey ''confluence''] (PDict c) = Inl es"
    using ConfluenceConfig_validate_Inl [of "[LocKey ''confluence'']" c "[?e]"] by auto
  then obtain es where es: "ConfluenceConfig_validate [LocKey ''confluence''] (PDict c) = Inl es"
    by blast
  from req a have "?e \<in> set es"
    using ConfluenceConfig_validate_errors [of "[LocKey ''confluence'']" c] es
    by (auto simp: errors_of_def)
  moreover from SyncConfig_init_errors [OF _ _ es, of m] a
  obtain errs where "SyncConfig_init m = Inl (ValidationError errs)" and "set es \<subseteq> set errs"
    by blast
  ultimately show "\<exists>errs. fst (load w self) = Inl (ValidationError errs) \<and> ?e \<in> set errs"
    using a by (auto simp: load_fst and_then_def)
qed

theorem required_fields_present_witness:
  "merged_config_data
     (load_dotenv \<lparr>environ = Map.empty,
        files = [Path ''confluence-sync.yml'' \<mapsto>
          Yaml (PDict [(PStr ''confluence'',
                  PDict [(PStr ''url'', PStr ''a''), (PStr ''space_key'', PStr ''k'')])])],
        dotenv = None\<rparr>)
     (config_path (Config_init None))
    = Inr [(PStr ''confluence'', PDict [(PStr ''url'', PStr ''a''), (PStr ''space_key'', PStr ''k'')])] \<and>
   (\<exists>errs. fst (load \<lparr>environ = Map.empty,
        files = [Path ''confluence-sync.yml'' \<mapsto>
          Yaml (PDict [(PStr ''confluence'',
                  PDict [(PStr ''url'', PStr ''a''), (PStr ''space_key'', PStr ''k'')])])],
        dotenv = None\<rparr> (Config_init None)) = Inl (ValidationError errs) \<and>
      ([LocKey ''confluence'', LocKey ''api_token''], ''missing'') \<in> set errs)"
proof -
  let ?w = "\<lparr>environ = Map.empty,
        files = [Path ''confluence-sync.yml'' \<mapsto>
          Yaml (PDict [(PStr ''confluence'',
                  PDict [(PStr ''url'', PStr ''a''), (PStr ''space_key'', PStr ''k'')])])],
        dotenv = None\<rparr>"
  have m: "merged_config_data (load_dotenv ?w) (config_path (Config_init None))
    = Inr [(PStr ''confluence'', PDict [(PStr ''url'', PStr ''a''), (PStr ''space_key'', PStr ''k'')])]"
    by (simp add: load_defs Config_init_def)
  from required_fields_present [of ?w "Config_init None", THEN conjunct2, rule_format,
      of "[(PStr ''confluence'', PDict [(PStr ''url'', PStr ''a''), (PStr ''space_key'', PStr ''k'')])]"
         "[(PStr ''url'', PStr ''a''), (PStr ''space_key'', PStr ''k'')]" "''api_token''"] m
  show ?thesis by simp
qed

text \<open>
  The statement that an empty required field makes \<^verbatim>\<open>load\<close> fail does not hold: a file
  that gives the empty string for \<^verbatim>\<open>url\<close> is loaded, and the settings hold the empty
  string.
\<close>

theorem required_fields_counterexample:
  "fst (load \<lparr>environ = Map.empty,
        files = [Path ''confluence-sync.yml'' \<mapsto>
          Yaml (PDict [(PStr ''confluence'',
                  PDict [(PStr ''url'', PStr []), (PStr ''api_token'', PStr ''t''),
                         (PStr ''space_key'', PStr ''k'')])])],
        dotenv = None\<rparr> (Config_init None))
   = Inr \<lparr>confluence = \<lparr>url = [], api_token = ''t'', space_key = ''k'', username = None\<rparr>,
          local_path = Path ''docs'', ignore_patterns = []\<rparr>"
  by (simp add: load_defs Config_init_def)

text \<open>
  C3 (as the code has it): the check of the file's top-level value sits behind
  \<^verbatim>\<open>if loaded:\<close>.  A value that is no mapping and is truthy (a non-empty list or string, a
  number other than zero, \<^verbatim>\<open>true\<close>) makes \<^verbatim>\<open>load\<close> raise the \<^verbatim>\<open>ValueError\<close> of line 46.
  The empty document (\<^verbatim>\<open>null\<close>, or a file with no content) is taken for an empty
  configuration: \<^verbatim>\<open>load\<close> gives the result it gives when the file does not exist.
\<close>

theorem non_mapping_file:
  assumes "files w (config_path self) = Some (Yaml v)" and "\<not> isinstance_dict v"
  shows "(truthy v \<longrightarrow>
            fst (load w self) =
              Inl (ValueError (''Config file must contain a YAML mapping/object: ''
                     @ path_str (config_path self)))) \<and>
         (v = PNone \<longrightarrow>
            fst (load w self) = fst (load (w\<lparr>files := (files w)(config_path self := None)\<rparr>) self))"
  using load_non_mapping [OF assms] by auto

theorem non_mapping_file_witness:
  "fst (load \<lparr>environ = Map.empty,
              files = [Path ''confluence-sync.yml'' \<mapsto> Yaml (PList [PStr ''a'', PStr ''b''])],
              dotenv = None\<rparr> (Config_init None))
   = Inl (ValueError ''Config file must contain a YAML mapping/object: confluence-sync.yml'') \<and>
   fst (load \<lparr>environ = Map.empty,
              files = [Path ''confluence-sync.yml'' \<mapsto> Yaml PNone],
              dotenv = None\<rparr> (Config_init None))
   = fst (load \<lparr>environ = Map.empty, files = Map.empty, dotenv = None\<rparr> (Config_init None))"
proof -
  have p: "config_path (Config_init None) = Path ''confluence-sync.yml''"
    by (simp add: Config_init_def)
  have 1: "fst (load \<lparr>environ = Map.empty,
              files = [Path ''confluence-sync.yml'' \<mapsto> Yaml (PList [PStr ''a'', PStr ''b''])],
              dotenv = None\<rparr> (Config_init None))
   = Inl (ValueError ''Config file must contain a YAML mapping/object: confluence-sync.yml'')"
    using non_mapping_file [of "\<lparr>environ = Map.empty,
              files = [Path ''confluence-sync.yml'' \<mapsto> Yaml (PList [PStr ''a'', PStr ''b''])],
              dotenv = None\<rparr>" "Config_init None" "PList [PStr ''a'', PStr ''b'']"]
    by (simp add: p)
  have 2: "fst (load \<lparr>environ = Map.empty,
              files = [Path ''confluence-sync.yml'' \<mapsto> Yaml PNone],
              dotenv = None\<rparr> (Config_init None))
   = fst (load \<lparr>environ = Map.empty, files = Map.empty, dotenv = None\<rparr> (Config_init None))"
    using non_mapping_file [of "\<lparr>environ = Map.empty,
              files = [Path ''confluence-sync.yml'' \<mapsto> Yaml PNone],
              dotenv = None\<rparr>" "Config_init None" PNone]
    by (simp add: p)
  from 1 2 show ?thesis by simp
qed

text \<open>
  The statement that every top-level list makes \<^verbatim>\<open>load\<close> fail does not hold: the empty
  list is falsy, so the check is skipped for it, and \<^verbatim>\<open>load\<close> returns settings, here
  with the three required fields taken from the environment.
\<close>

theorem non_mapping_file_counterexample:
  "fst (load \<lparr>environ = [''CONFLUENCE_URL'' \<mapsto> ''u'', ''CONFLUENCE_API_TOKEN'' \<mapsto> ''t'',
                         ''CONFLUENCE_SPACE_KEY'' \<mapsto> ''k''],
              files = [Path ''confluence-sync.yml'' \<mapsto> Yaml (PList [])],
              dotenv = None\<rparr> (Config_init None))
   = Inr \<lparr>confluence = \<lparr>url = ''u'', api_token = ''t'', space_key = ''k'', username = None\<rparr>,
          local_path = Path ''docs'', ignore_patterns = []\<rparr>"
proof -
  have "strip ''u'' = ''u''" "strip ''t'' = ''t''" "strip ''k'' = ''k''"
    by (simp_all add: strip_defs)
  then show ?thesis
    by (simp add: load_defs Config_init_def)
qed

text \<open>
  C7 (as the code has it): with \<^verbatim>\<open>api_token\<close> neither in the \<^verbatim>\<open>confluence\<close> mapping that
  line 58 builds from the file nor in the environment, \<^verbatim>\<open>load\<close> never succeeds.  It fails
  with a validation error exactly when no earlier step raised and the keys of the merged
  mapping are strings.  That error names \<^verbatim>\<open>confluence.api_token\<close> as missing when the
  merged mapping holds a \<^verbatim>\<open>confluence\<close> mapping; when it holds none, the error names
  \<^verbatim>\<open>confluence\<close> itself (missing, or not a mapping), and no field of it.
\<close>

theorem missing_api_token:
  assumes tok: "get_env (environ (load_dotenv w)) ''CONFLUENCE_API_TOKEN'' = None"
    and absent: "\<forall>d c. load_config_data (load_dotenv w) (config_path self) = Inr d \<and>
                     py_dict (py_or (get d ''confluence'') (PDict [])) = Inr (PDict c) \<longrightarrow>
                   dict_get c (PStr ''api_token'') = None"
  shows "(\<exists>e. fst (load w self) = Inl e) \<and>
     (\<forall>errs. fst (load w self) = Inl (ValidationError errs) \<longrightarrow>
        (\<exists>m. merged_config_data (load_dotenv w) (config_path self) = Inr m \<and>
           list_all (\<lambda>(k, v). isinstance_str k) m \<and>
           (case dict_get m (PStr ''confluence'') of
              None \<Rightarrow> ([LocKey ''confluence''], ''missing'') \<in> set errs
            | Some v \<Rightarrow>
                if isinstance_dict v
                then ([LocKey ''confluence'', LocKey ''api_token''], ''missing'') \<in> set errs
                else ([LocKey ''confluence''], ''model_type'') \<in> set errs))) \<and>
     (\<forall>m. merged_config_data (load_dotenv w) (config_path self) = Inr m \<and>
          list_all (\<lambda>(k, v). isinstance_str k) m \<longrightarrow>
        (\<exists>errs. fst (load w self) = Inl (ValidationError errs)))"
proof -
  have token: "dict_get cc (PStr ''api_token'') = None"
    if "merged_config_data (load_dotenv w) (config_path self) = Inr m"
      and "dict_get m (PStr ''confluence'') = Some (PDict cc)" for m cc
  proof -
    from merged_config_data_Inr_D [OF that(1)] obtain d where
      d: "load_config_data (load_dotenv w) (config_path self) = Inr d" and
      out: "overlay_env (environ (load_dotenv w)) d = Inr m"
      by blast
    from absent d have "\<forall>c. py_dict (py_or (get d ''confluence'') (PDict [])) = Inr (PDict c) \<longrightarrow>
                 dict_get c (PStr ''api_token'') = None"
      by blast
    from merged_confluence_token [OF out tok this that(2)] show ?thesis .
  qed
  have fails: "fst (load w self) \<noteq> Inr cfg" for cfg
  proof
    assume "fst (load w self) = Inr cfg"
    then obtain m where m: "merged_config_data (load_dotenv w) (config_path self) = Inr m"
      and init: "SyncConfig_init m = Inr cfg"
      by (auto simp: load_fst and_then_def split: sum.splits)
    from SyncConfig_init_Inr(1) [OF init] obtain v where
      v: "dict_get m (PStr ''confluence'') = Some v" and
      val: "ConfluenceConfig_validate [LocKey ''confluence''] v = Inr (confluence cfg)"
      by blast
    from ConfluenceConfig_validate_Inr [OF val] obtain cc where
      cc: "v = PDict cc" and
      "required_str [LocKey ''confluence''] cc ''api_token'' = Inr (api_token (confluence cfg))"
      by blast
    then have "dict_get cc (PStr ''api_token'') = Some (PStr (api_token (confluence cfg)))"
      by (simp add: required_str_Inr)
    with token [OF m] v cc show False by simp
  qed
  have 1: "\<exists>e. fst (load w self) = Inl e"
    using fails by (cases "fst (load w self)") auto
  have 2: "\<exists>m. merged_config_data (load_dotenv w) (config_path self) = Inr m \<and>
           list_all (\<lambda>(k, v). isinstance_str k) m \<and>
           (case dict_get m (PStr ''confluence'') of
              None \<Rightarrow> ([LocKey ''confluence''], ''missing'') \<in> set errs
            | Some v \<Rightarrow>
                if isinstance_dict v
                then ([LocKey ''confluence'', LocKey ''api_token''], ''missing'') \<in> set errs
                else ([LocKey ''confluence''], ''model_type'') \<in> set errs)"
    if "fst (load w self) = Inl (ValidationError errs)" for errs
  proof (cases "merged_config_data (load_dotenv w) (config_path self)")
    case (Inl e)
    with that have "e = ValidationError errs"
      by (simp add: load_fst and_then_def)
    with merged_config_data_Inl [OF Inl] show ?thesis by simp
  next
    case (Inr m)
    with that have init: "SyncConfig_init m = Inl (ValidationError errs)"
      by (simp add: load_fst and_then_def)
    note sub = SyncConfig_init_Inl_errors [OF init]
    show ?thesis
    proof (cases "dict_get m (PStr ''confluence'')")
      case None
      with sub Inr show ?thesis by (simp add: errors_of_def)
    next
      case (Some v)
      show ?thesis
      proof (cases "isinstance_dict v")
        case True
        then obtain cc where cc: "v = PDict cc" by (cases v) simp_all
        from token [OF Inr] Some cc have "dict_get cc (PStr ''api_token'') = None"
          by simp
        from ConfluenceConfig_validate_missing_token [OF this, of "[LocKey ''confluence'']"]
          sub Some cc Inr
        show ?thesis by auto
      next
        case False
        with ConfluenceConfig_validate_non_dict [OF False, of "[LocKey ''confluence'']"]
          sub Some Inr
        show ?thesis by (simp add: errors_of_def)
      qed
    qed
  qed
  have 3: "\<exists>errs. fst (load w self) = Inl (ValidationError errs)"
    if "merged_config_data (load_dotenv w) (config_path self) = Inr m"
      and "list_all (\<lambda>(k, v). isinstance_str k) m" for m
    using SyncConfig_init_str_keys [OF that(2)] that(1) fails
    by (auto simp: load_fst and_then_def)
  from 1 2 3 show ?thesis by blast
qed

theorem missing_api_token_witness:
  "get_env Map.empty ''CONFLUENCE_API_TOKEN'' = None \<and>
   (\<exists>errs. fst (load \<lparr>environ = Map.empty,
        files = [Path ''confluence-sync.yml'' \<mapsto>
          Yaml (PDict [(PStr ''confluence'',
                  PDict [(PStr ''url'', PStr ''a''), (PStr ''space_key'', PStr ''k'')])])],
        dotenv = None\<rparr> (Config_init None)) = Inl (ValidationError errs) \<and>
      ([LocKey ''confluence'', LocKey ''api_token''], ''missing'') \<in> set errs)"
proof -
  let ?w = "\<lparr>environ = Map.empty,
        files = [Path ''confluence-sync.yml'' \<mapsto>
          Yaml (PDict [(PStr ''confluence'',
                  PDict [(PStr ''url'', PStr ''a''), (PStr ''space_key'', PStr ''k'')])])],
        dotenv = None\<rparr>"
  have tok: "get_env (environ (load_dotenv ?w)) ''CONFLUENCE_API_TOKEN'' = None"
    by (simp add: get_env_def load_dotenv_def)
  have absent: "\<forall>d c. load_config_data (load_dotenv ?w) (config_path (Config_init None)) = Inr d \<and>
                     py_dict (py_or (get d ''confluence'') (PDict [])) = Inr (PDict c) \<longrightarrow>
                   dict_get c (PStr ''api_token'') = None"
    by (auto simp: load_defs Config_init_def)
  have m: "merged_config_data (load_dotenv ?w) (config_path (Config_init None))
    = Inr [(PStr ''confluence'', PDict [(PStr ''url'', PStr ''a''), (PStr ''space_key'', PStr ''k'')])]"
    by (simp add: load_defs Config_init_def)
  from missing_api_token [OF tok absent, THEN conjunct2, THEN conjunct2, rule_format, of
     "[(PStr ''confluence'', PDict [(PStr ''url'', PStr ''a''), (PStr ''space_key'', PStr ''k'')])]"] m
  obtain errs where errs: "fst (load ?w (Config_init None)) = Inl (ValidationError errs)"
    by auto
  from missing_api_token [OF tok absent, THEN conjunct2, THEN conjunct1, rule_format, OF errs] m
  have "([LocKey ''confluence'', LocKey ''api_token''], ''missing'') \<in> set errs"
    by simp
  with errs show ?thesis
    by (auto simp: get_env_def)
qed

text \<open>
  The statement that the error names \<^verbatim>\<open>api_token\<close> does not hold: with no file and an
  empty environment the only line of the validation error is for \<^verbatim>\<open>confluence\<close>.
\<close>

theorem missing_api_token_counterexample:
  "fst (load \<lparr>environ = Map.empty, files = Map.empty, dotenv = None\<rparr> (Config_init None))
     = Inl (ValidationError [([LocKey ''confluence''], ''missing'')])"
  by (simp add: load_defs Config_init_def)

end
